theory Spec2Isabelle
  imports Complex_Main "HOL-Library.Sublist"
begin

section \<open>Python values\<close>

text \<open>
  The values that reach the library from host code. An object of the expression
  classes is a reference into the heap (\<open>Ref\<close>); every other value is a plain Python
  value (\<open>Lit\<close>). A finite \<open>float\<close> is given by the rational number it denotes, a
  \<open>complex\<close> by its two parts; infinities and NaN are left out.
\<close>

type_synonym addr = nat

datatype pyval =
    PyNone
  | PyBool bool
  | PyInt int
  | PyFloat rat
  | PyComplex rat rat
  | PyStr string

datatype arg = Lit pyval | Ref addr

text \<open>\<^verbatim>\<open>isinstance(value, numbers.Number)\<close>: \<open>int\<close>, \<open>bool\<close> (a subclass of \<open>int\<close>),
  \<open>float\<close> and \<open>complex\<close> are registered with the numeric tower.\<close>

fun is_number :: "pyval \<Rightarrow> bool" where
  "is_number (PyBool b) = True"
| "is_number (PyInt i) = True"
| "is_number (PyFloat q) = True"
| "is_number (PyComplex re im) = True"
| "is_number PyNone = False"
| "is_number (PyStr s) = False"

text \<open>\<^verbatim>\<open>isinstance(value, str)\<close>.\<close>

fun is_str :: "pyval \<Rightarrow> bool" where
  "is_str (PyStr s) = True"
| "is_str v = False"

text \<open>Python's \<open>==\<close> on plain values: numbers compare by value across \<open>bool\<close>,
  \<open>int\<close>, \<open>float\<close> and \<open>complex\<close>; anything else is equal only to itself.\<close>

fun num_val :: "pyval \<Rightarrow> (rat \<times> rat) option" where
  "num_val (PyBool b) = Some (if b then 1 else 0, 0)"
| "num_val (PyInt i) = Some (of_int i, 0)"
| "num_val (PyFloat q) = Some (q, 0)"
| "num_val (PyComplex re im) = Some (re, im)"
| "num_val PyNone = None"
| "num_val (PyStr s) = None"

definition py_eq :: "pyval \<Rightarrow> pyval \<Rightarrow> bool" where
  "py_eq a b =
     (case (num_val a, num_val b) of
        (Some x, Some y) \<Rightarrow> x = y
      | (None, None) \<Rightarrow> a = b
      | _ \<Rightarrow> False)"

text \<open>\<^verbatim>\<open>value in values\<close> for a plain \<open>value\<close>: an expression object among the values
  is never equal to it (the expression classes define no \<open>__eq__\<close>).\<close>

definition py_in :: "pyval \<Rightarrow> arg list \<Rightarrow> bool" where
  "py_in v xs = list_ex (\<lambda>x. case x of Lit u \<Rightarrow> py_eq v u | Ref a \<Rightarrow> False) xs"

text \<open>\<^verbatim>\<open>str(value)\<close>. The decimal form of an \<open>int\<close> and the text of a \<open>str\<close> are
  computed here; the formatting of \<open>float\<close> and \<open>complex\<close> belongs to the Python
  runtime and is the parameter \<open>fmt\<close>.\<close>

definition digit :: "nat \<Rightarrow> char" where
  "digit n = ''0123456789'' ! n"

fun str_nat :: "nat \<Rightarrow> string" where
  "str_nat n = (if n < 10 then [digit n] else str_nat (n div 10) @ [digit (n mod 10)])"

fun py_str :: "(pyval \<Rightarrow> string) \<Rightarrow> pyval \<Rightarrow> string" where
  "py_str fmt PyNone = ''None''"
| "py_str fmt (PyBool b) = (if b then ''True'' else ''False'')"
| "py_str fmt (PyInt i) = (if i < 0 then ''-'' @ str_nat (nat (- i)) else str_nat (nat i))"
| "py_str fmt (PyStr s) = s"
| "py_str fmt (PyFloat q) = fmt (PyFloat q)"
| "py_str fmt (PyComplex re im) = fmt (PyComplex re im)"

section \<open>Classes\<close>

text \<open>
  The classes of \<^verbatim>\<open>expressions.py\<close>. \<open>Derived name base\<close> is a class defined by host
  code that subclasses \<open>base\<close> and overrides nothing: the extension point that the
  dispatch on the runtime class leaves open.
\<close>

datatype cls =
    Expression
  | Terminal
  | Number
  | Symbol
  | Operator
  | Add
  | Sub
  | Mul
  | Div
  | Pow_cls
  | Derived string cls

fun cls_name :: "cls \<Rightarrow> string" where
  "cls_name Expression = ''Expression''"
| "cls_name Terminal = ''Terminal''"
| "cls_name Number = ''Number''"
| "cls_name Symbol = ''Symbol''"
| "cls_name Operator = ''Operator''"
| "cls_name Add = ''Add''"
| "cls_name Sub = ''Sub''"
| "cls_name Mul = ''Mul''"
| "cls_name Div = ''Div''"
| "cls_name Pow_cls = ''Pow''"
| "cls_name (Derived name b) = name"

text \<open>The method resolution order, \<open>object\<close> left out.\<close>

fun mro :: "cls \<Rightarrow> cls list" where
  "mro Expression = [Expression]"
| "mro Terminal = [Terminal, Expression]"
| "mro Number = [Number, Terminal, Expression]"
| "mro Symbol = [Symbol, Terminal, Expression]"
| "mro Operator = [Operator, Expression]"
| "mro Add = [Add, Operator, Expression]"
| "mro Sub = [Sub, Operator, Expression]"
| "mro Mul = [Mul, Operator, Expression]"
| "mro Div = [Div, Operator, Expression]"
| "mro Pow_cls = [Pow_cls, Operator, Expression]"
| "mro (Derived name b) = Derived name b # mro b"

definition isinstance :: "cls \<Rightarrow> cls \<Rightarrow> bool" where
  "isinstance c k = (k \<in> set (mro c))"

text \<open>The class attributes \<open>precedence\<close> and \<open>symbol\<close>. They exist on \<open>Operator\<close> and
  its subclasses only, and the code reads them only from instances of \<open>Operator\<close>.\<close>

fun precedence :: "cls \<Rightarrow> int" where
  "precedence Operator = 0"
| "precedence Add = 1"
| "precedence Sub = 1"
| "precedence Mul = 2"
| "precedence Div = 2"
| "precedence Pow_cls = 3"
| "precedence (Derived name b) = precedence b"

fun symbol :: "cls \<Rightarrow> string" where
  "symbol Operator = ''''"
| "symbol Add = ''+''"
| "symbol Sub = ''-''"
| "symbol Mul = ''*''"
| "symbol Div = ''/''"
| "symbol Pow_cls = ''^''"
| "symbol (Derived name b) = symbol b"

section \<open>Objects, the heap and errors\<close>

text \<open>
  An expression object has its class, the tuple \<open>operands\<close> (references to expression
  objects) and, once \<^verbatim>\<open>Terminal.__init__\<close> has run, the attribute \<open>value\<close> (\<open>val\<close>).
  Objects live in a heap; a reference is an index into it, so that two references are
  the same object exactly when they are equal. Construction appends to the heap and
  nothing ever overwrites an entry. The rest of the host program's state (what a visiting
  function may change besides the heap) is the field \<open>user\<close>.
\<close>

record obj =
  cls_of :: cls
  operands :: "addr list"
  val :: "pyval option"

record 'u world =
  heap :: "obj list"
  user :: 'u

datatype error =
    TypeError
  | NotImplementedError string
  | IndexError
  | ValueError
  | AttributeError
  | KeyError
  | RecursionError

type_synonym ('a, 'u) action = "'u world \<Rightarrow> error + 'a \<times> 'u world"

text \<open>Sequencing: an exception of the first step ends the computation.\<close>

definition and_then :: "('a, 'u) action \<Rightarrow> ('a \<Rightarrow> ('b, 'u) action) \<Rightarrow> ('b, 'u) action" where
  "and_then m f w = (case m w of Inl e \<Rightarrow> Inl e | Inr (x, w') \<Rightarrow> f x w')"

text \<open>\<^verbatim>\<open>xs[i]\<close> on a tuple, for the indices 0 and 1 that the code uses.\<close>

definition getitem :: "'a list \<Rightarrow> nat \<Rightarrow> ('a, 'u) action" where
  "getitem xs i w = (if i < length xs then Inr (xs ! i, w) else Inl IndexError)"

section \<open>Construction\<close>

text \<open>\<^verbatim>\<open>Expression.__init__(self, *operands)\<close>, which every class without a value
  inherits; \<open>c\<close> is the class being instantiated.\<close>

definition Expression_init :: "cls \<Rightarrow> addr list \<Rightarrow> (addr, 'u) action" where
  "Expression_init c ops w =
     Inr (length (heap w),
          w\<lparr>heap := heap w @ [\<lparr>cls_of = c, operands = ops, val = None\<rparr>]\<rparr>)"

text \<open>\<^verbatim>\<open>Terminal.__init__(self, value)\<close>: no operands, and the value stored.\<close>

definition Terminal_init :: "cls \<Rightarrow> pyval \<Rightarrow> (addr, 'u) action" where
  "Terminal_init c v w =
     Inr (length (heap w),
          w\<lparr>heap := heap w @ [\<lparr>cls_of = c, operands = [], val = Some v\<rparr>]\<rparr>)"

text \<open>\<^verbatim>\<open>Number(value)\<close> and \<^verbatim>\<open>Symbol(value)\<close>. An expression object passed as the value is
  neither a number nor a string.\<close>

definition Number_init :: "arg \<Rightarrow> (addr, 'u) action" where
  "Number_init x w =
     (case x of
        Ref a \<Rightarrow> Inl TypeError
      | Lit v \<Rightarrow> if \<not> is_number v then Inl TypeError else Terminal_init Number v w)"

definition Symbol_init :: "arg \<Rightarrow> (addr, 'u) action" where
  "Symbol_init x w =
     (case x of
        Ref a \<Rightarrow> Inl TypeError
      | Lit v \<Rightarrow> if \<not> is_str v then Inl TypeError else Terminal_init Symbol v w)"

section \<open>Arithmetic on expressions\<close>

text \<open>\<^verbatim>\<open>self OP other\<close>: an \<open>other\<close> that is not an expression is wrapped in \<open>Number\<close>
  first.\<close>

definition Expression_add :: "addr \<Rightarrow> arg \<Rightarrow> (addr, 'u) action" where
  "Expression_add self other =
     (case other of
        Ref b \<Rightarrow> Expression_init Add [self, b]
      | Lit v \<Rightarrow> and_then (Number_init other) (\<lambda>n. Expression_init Add [self, n]))"

definition Expression_sub :: "addr \<Rightarrow> arg \<Rightarrow> (addr, 'u) action" where
  "Expression_sub self other =
     (case other of
        Ref b \<Rightarrow> Expression_init Sub [self, b]
      | Lit v \<Rightarrow> and_then (Number_init other) (\<lambda>n. Expression_init Sub [self, n]))"

definition Expression_mul :: "addr \<Rightarrow> arg \<Rightarrow> (addr, 'u) action" where
  "Expression_mul self other =
     (case other of
        Ref b \<Rightarrow> Expression_init Mul [self, b]
      | Lit v \<Rightarrow> and_then (Number_init other) (\<lambda>n. Expression_init Mul [self, n]))"

definition Expression_truediv :: "addr \<Rightarrow> arg \<Rightarrow> (addr, 'u) action" where
  "Expression_truediv self other =
     (case other of
        Ref b \<Rightarrow> Expression_init Div [self, b]
      | Lit v \<Rightarrow> and_then (Number_init other) (\<lambda>n. Expression_init Div [self, n]))"

definition Expression_pow :: "addr \<Rightarrow> arg \<Rightarrow> (addr, 'u) action" where
  "Expression_pow self other =
     (case other of
        Ref b \<Rightarrow> Expression_init Pow_cls [self, b]
      | Lit v \<Rightarrow> and_then (Number_init other) (\<lambda>n. Expression_init Pow_cls [self, n]))"

text \<open>\<^verbatim>\<open>other OP self\<close>, which Python routes to the reflected method when \<open>other\<close> is
  not an expression: \<open>other\<close> is wrapped and stays the left operand.\<close>

definition Expression_radd :: "addr \<Rightarrow> arg \<Rightarrow> (addr, 'u) action" where
  "Expression_radd self other =
     and_then (Number_init other) (\<lambda>n. Expression_init Add [n, self])"

definition Expression_rsub :: "addr \<Rightarrow> arg \<Rightarrow> (addr, 'u) action" where
  "Expression_rsub self other =
     and_then (Number_init other) (\<lambda>n. Expression_init Sub [n, self])"

definition Expression_rmul :: "addr \<Rightarrow> arg \<Rightarrow> (addr, 'u) action" where
  "Expression_rmul self other =
     and_then (Number_init other) (\<lambda>n. Expression_init Mul [n, self])"

definition Expression_rtruediv :: "addr \<Rightarrow> arg \<Rightarrow> (addr, 'u) action" where
  "Expression_rtruediv self other =
     and_then (Number_init other) (\<lambda>n. Expression_init Div [n, self])"

definition Expression_rpow :: "addr \<Rightarrow> arg \<Rightarrow> (addr, 'u) action" where
  "Expression_rpow self other =
     and_then (Number_init other) (\<lambda>n. Expression_init Pow_cls [n, self])"

section \<open>Rendering\<close>

text \<open>\<^verbatim>\<open>Terminal.__str__\<close>: the string form of the value.\<close>

definition Terminal_str :: "(pyval \<Rightarrow> string) \<Rightarrow> obj \<Rightarrow> error + string" where
  "Terminal_str fmt self =
     (case val self of None \<Rightarrow> Inl AttributeError | Some v \<Rightarrow> Inr (py_str fmt v))"

text \<open>\<^verbatim>\<open>Operator.__str__\<close>; \<open>str\<close> is \<^verbatim>\<open>str()\<close> on an operand. Unpacking a tuple that has
  not exactly two entries raises \<open>ValueError\<close>.\<close>

definition Operator_str :: "(addr \<Rightarrow> error + string) \<Rightarrow> obj list \<Rightarrow> obj \<Rightarrow> error + string" where
  "Operator_str str h self =
     (case operands self of
        [left, right] \<Rightarrow>
          (case str left of
             Inl e \<Rightarrow> Inl e
           | Inr left_str \<Rightarrow>
               (case str right of
                  Inl e \<Rightarrow> Inl e
                | Inr right_str \<Rightarrow>
                    Inr ((if isinstance (cls_of (h ! left)) Operator
                             \<and> precedence (cls_of (h ! left)) < precedence (cls_of self)
                          then ''('' @ left_str @ '')'' else left_str)
                         @ '' '' @ symbol (cls_of self) @ '' '' @
                         (if isinstance (cls_of (h ! right)) Operator
                             \<and> precedence (cls_of (h ! right)) < precedence (cls_of self)
                          then ''('' @ right_str @ '')'' else right_str))))
      | _ \<Rightarrow> Inl ValueError)"

text \<open>\<^verbatim>\<open>str(e)\<close> for an expression object: the \<open>__str__\<close> of the first class in the
  method resolution order that defines one. \<^verbatim>\<open>Expression.__str__\<close> returns the operand
  tuple, which \<^verbatim>\<open>str()\<close> rejects with \<open>TypeError\<close>. The first argument after \<open>fmt\<close> is the
  recursion depth that is left; Python raises \<open>RecursionError\<close> when it is used up.\<close>

fun str_expr :: "(pyval \<Rightarrow> string) \<Rightarrow> nat \<Rightarrow> obj list \<Rightarrow> addr \<Rightarrow> error + string" where
  "str_expr fmt 0 h e = Inl RecursionError"
| "str_expr fmt (Suc depth) h e =
     (if isinstance (cls_of (h ! e)) Terminal then Terminal_str fmt (h ! e)
      else if isinstance (cls_of (h ! e)) Operator
        then Operator_str (\<lambda>x. str_expr fmt depth h x) h (h ! e)
      else Inl TypeError)"

section \<open>The post-order visitor\<close>

text \<open>
  The \<^verbatim>\<open>while stack\<close> loop of \<open>postvisitor\<close>. The stack is a list with its top at the
  head; \<open>visited\<close> is the dictionary, keyed by object identity. A loop that does not end
  has the value \<open>None\<close>. \<open>those\<close> collects \<^verbatim>\<open>visited[o]\<close> for the operands, \<open>KeyError\<close>
  if one is missing.
\<close>

partial_function (option) postvisitor_loop ::
  "(addr \<Rightarrow> 'r list \<Rightarrow> 'k \<Rightarrow> ('r, 'u) action) \<Rightarrow> 'k \<Rightarrow>
   addr list \<Rightarrow> (addr \<rightharpoonup> 'r) \<Rightarrow> 'u world \<Rightarrow> (error + (addr \<rightharpoonup> 'r) \<times> 'u world) option" where
  "postvisitor_loop fn kwargs stack visited w =
     (case stack of
        [] \<Rightarrow> Some (Inr (visited, w))
      | e # rest \<Rightarrow>
          (let unvisited_children = filter (\<lambda>x. visited x = None) (operands (heap w ! e)) in
           if unvisited_children \<noteq> [] then
             postvisitor_loop fn kwargs (rev unvisited_children @ e # rest) visited w
           else
             (case those (map visited (operands (heap w ! e))) of
                None \<Rightarrow> Some (Inl KeyError)
              | Some results \<Rightarrow>
                  (case fn e results kwargs w of
                     Inl err \<Rightarrow> Some (Inl err)
                   | Inr (r, w') \<Rightarrow> postvisitor_loop fn kwargs rest (visited(e \<mapsto> r)) w'))))"

declare postvisitor_loop.simps [code]

definition postvisitor ::
  "addr \<Rightarrow> (addr \<Rightarrow> 'r list \<Rightarrow> 'k \<Rightarrow> ('r, 'u) action) \<Rightarrow> 'k \<Rightarrow> 'u world \<Rightarrow>
   (error + 'r \<times> 'u world) option" where
  "postvisitor expr fn kwargs w =
     (case postvisitor_loop fn kwargs [expr] Map.empty w of
        None \<Rightarrow> None
      | Some (Inl err) \<Rightarrow> Some (Inl err)
      | Some (Inr (visited, w')) \<Rightarrow>
          (case visited expr of None \<Rightarrow> Some (Inl KeyError) | Some r \<Rightarrow> Some (Inr (r, w'))))"

section \<open>Differentiation\<close>

text \<open>
  \<open>differentiate\<close> is a \<^verbatim>\<open>singledispatch\<close> function: the implementation is the one
  registered for the first class in the method resolution order of \<^verbatim>\<open>type(expr)\<close> that
  has one, the undecorated function otherwise. The keyword arguments are a list of
  name and value.
\<close>

type_synonym kwargs = "(string \<times> arg) list"

definition registered :: "cls \<Rightarrow> bool" where
  "registered c = (c \<in> {Number, Symbol, Add, Sub, Mul, Div, Pow_cls})"

definition dispatch :: "cls \<Rightarrow> cls option" where
  "dispatch c = find registered (mro c)"

text \<open>The implementations, in the order of the file. \<open>os\<close> is \<^verbatim>\<open>*o\<close>.\<close>

definition differentiate_base :: "addr \<Rightarrow> addr list \<Rightarrow> kwargs \<Rightarrow> (addr, 'u) action" where
  "differentiate_base expr os kw w =
     Inl (NotImplementedError (''Cannot differentiate a '' @ cls_name (cls_of (heap w ! expr))))"

definition differentiate_Number :: "addr \<Rightarrow> addr list \<Rightarrow> kwargs \<Rightarrow> (addr, 'u) action" where
  "differentiate_Number expr os kw = Number_init (Lit (PyInt 0))"

definition differentiate_Symbol :: "addr \<Rightarrow> addr list \<Rightarrow> kwargs \<Rightarrow> (addr, 'u) action" where
  "differentiate_Symbol expr os kw w =
     (case val (heap w ! expr) of
        None \<Rightarrow> Inl AttributeError
      | Some v \<Rightarrow>
          if py_in v (map snd kw) then Number_init (Lit (PyInt 1)) w
          else Number_init (Lit (PyInt 0)) w)"

definition differentiate_Add :: "addr \<Rightarrow> addr list \<Rightarrow> kwargs \<Rightarrow> (addr, 'u) action" where
  "differentiate_Add expr os kw =
     and_then (getitem os 0) (\<lambda>o0.
     and_then (getitem os 1) (\<lambda>o1.
     Expression_add o0 (Ref o1)))"

definition differentiate_Sub :: "addr \<Rightarrow> addr list \<Rightarrow> kwargs \<Rightarrow> (addr, 'u) action" where
  "differentiate_Sub expr os kw =
     and_then (getitem os 0) (\<lambda>o0.
     and_then (getitem os 1) (\<lambda>o1.
     Expression_sub o0 (Ref o1)))"

definition operand :: "addr \<Rightarrow> nat \<Rightarrow> (addr, 'u) action" where
  "operand expr i w = getitem (operands (heap w ! expr)) i w"

definition differentiate_Mul :: "addr \<Rightarrow> addr list \<Rightarrow> kwargs \<Rightarrow> (addr, 'u) action" where
  "differentiate_Mul expr os kw =
     and_then (getitem os 0) (\<lambda>o0.
     and_then (operand expr 1) (\<lambda>x1.
     and_then (Expression_mul o0 (Ref x1)) (\<lambda>m0.
     and_then (getitem os 1) (\<lambda>o1.
     and_then (operand expr 0) (\<lambda>x0.
     and_then (Expression_mul o1 (Ref x0)) (\<lambda>m1.
     Expression_add m0 (Ref m1)))))))"

definition differentiate_Div :: "addr \<Rightarrow> addr list \<Rightarrow> kwargs \<Rightarrow> (addr, 'u) action" where
  "differentiate_Div expr os kw =
     and_then (getitem os 0) (\<lambda>o0.
     and_then (operand expr 1) (\<lambda>x1.
     and_then (Expression_mul o0 (Ref x1)) (\<lambda>m0.
     and_then (getitem os 1) (\<lambda>o1.
     and_then (operand expr 0) (\<lambda>x0.
     and_then (Expression_mul o1 (Ref x0)) (\<lambda>m1.
     and_then (Expression_sub m0 (Ref m1)) (\<lambda>num.
     and_then (operand expr 1) (\<lambda>y1.
     and_then (Expression_pow y1 (Lit (PyInt 2))) (\<lambda>den.
     Expression_truediv num (Ref den))))))))))"

definition differentiate_Pow :: "addr \<Rightarrow> addr list \<Rightarrow> kwargs \<Rightarrow> (addr, 'u) action" where
  "differentiate_Pow expr os kw =
     and_then (getitem os 0) (\<lambda>o0.
     and_then (operand expr 1) (\<lambda>x1.
     and_then (Expression_mul o0 (Ref x1)) (\<lambda>m0.
     and_then (operand expr 0) (\<lambda>x0.
     and_then (operand expr 1) (\<lambda>y1.
     and_then (Expression_sub y1 (Lit (PyInt 1))) (\<lambda>ex.
     and_then (Expression_pow x0 (Ref ex)) (\<lambda>p.
     Expression_mul m0 (Ref p))))))))"

definition differentiate :: "addr \<Rightarrow> addr list \<Rightarrow> kwargs \<Rightarrow> (addr, 'u) action" where
  "differentiate expr os kw w =
     (case dispatch (cls_of (heap w ! expr)) of
        None \<Rightarrow> differentiate_base expr os kw w
      | Some k \<Rightarrow>
          if k = Number then differentiate_Number expr os kw w
          else if k = Symbol then differentiate_Symbol expr os kw w
          else if k = Add then differentiate_Add expr os kw w
          else if k = Sub then differentiate_Sub expr os kw w
          else if k = Mul then differentiate_Mul expr os kw w
          else if k = Div then differentiate_Div expr os kw w
          else if k = Pow_cls then differentiate_Pow expr os kw w
          else differentiate_base expr os kw w)"

section \<open>Heaps that construction can build\<close>

text \<open>
  The objects as the constructors write them, and a world with more objects appended.
\<close>

definition terminal_obj :: "cls \<Rightarrow> pyval \<Rightarrow> obj" where
  "terminal_obj c v = \<lparr>cls_of = c, operands = [], val = Some v\<rparr>"

definition operator_obj :: "cls \<Rightarrow> addr \<Rightarrow> addr \<Rightarrow> obj" where
  "operator_obj c l r = \<lparr>cls_of = c, operands = [l, r], val = None\<rparr>"

definition extend_heap :: "'u world \<Rightarrow> obj list \<Rightarrow> 'u world" where
  "extend_heap w objs = w\<lparr>heap := heap w @ objs\<rparr>"

text \<open>
  The operands of an object exist before the object does, and no attribute is assigned
  after construction: in every heap that the constructors build, an operand is a smaller
  index than its parent. \<open>wf_from n h\<close> checks this for a heap segment \<open>h\<close> whose first
  object has index \<open>n\<close>.
\<close>

fun wf_from :: "nat \<Rightarrow> obj list \<Rightarrow> bool" where
  "wf_from n [] = True"
| "wf_from n (ob # h) = (list_all (\<lambda>x. x < n) (operands ob) \<and> wf_from (Suc n) h)"

definition wf_heap :: "obj list \<Rightarrow> bool" where
  "wf_heap h = wf_from 0 h"

section \<open>Expressions as trees\<close>

text \<open>
  The tree that a reference denotes: a terminal with its class and value, or a node with
  two operands. \<open>repr h e t\<close> reads the tree \<open>t\<close> off the heap at \<open>e\<close>; an object that is
  an operand twice appears in the tree twice.
\<close>

datatype tree = Leaf cls pyval | Bin cls tree tree

inductive repr :: "obj list \<Rightarrow> addr \<Rightarrow> tree \<Rightarrow> bool" where
  leaf: "e < length h \<Longrightarrow> cls_of (h ! e) = c \<Longrightarrow> operands (h ! e) = [] \<Longrightarrow>
         val (h ! e) = Some v \<Longrightarrow> repr h e (Leaf c v)"
| bin: "e < length h \<Longrightarrow> cls_of (h ! e) = c \<Longrightarrow> operands (h ! e) = [l, r] \<Longrightarrow>
        val (h ! e) = None \<Longrightarrow> repr h l t0 \<Longrightarrow> repr h r t1 \<Longrightarrow> repr h e (Bin c t0 t1)"

code_pred repr .

text \<open>Terminals are of the terminal classes and inner nodes of the operator classes.\<close>

fun well_typed :: "tree \<Rightarrow> bool" where
  "well_typed (Leaf c v) = isinstance c Terminal"
| "well_typed (Bin c t0 t1) = (isinstance c Operator \<and> well_typed t0 \<and> well_typed t1)"

fun height :: "tree \<Rightarrow> nat" where
  "height (Leaf c v) = 1"
| "height (Bin c t0 t1) = Suc (max (height t0) (height t1))"

text \<open>
  The display text as the specification words it: a terminal is the string form of its
  value; an operator node is left, symbol, right, separated by blanks, an operand in
  parentheses exactly when it is an operator of strictly lower precedence.
\<close>

fun lower_precedence :: "tree \<Rightarrow> cls \<Rightarrow> bool" where
  "lower_precedence (Leaf k v) c = False"
| "lower_precedence (Bin k t0 t1) c = (precedence k < precedence c)"

fun spec_render :: "(pyval \<Rightarrow> string) \<Rightarrow> tree \<Rightarrow> string" where
  "spec_render fmt (Leaf c v) = py_str fmt v"
| "spec_render fmt (Bin c t0 t1) =
     (if lower_precedence t0 c then ''('' @ spec_render fmt t0 @ '')'' else spec_render fmt t0)
     @ '' '' @ symbol c @ '' '' @
     (if lower_precedence t1 c then ''('' @ spec_render fmt t1 @ '')'' else spec_render fmt t1)"

text \<open>
  The derivative as the table of rules words it, on trees of the seven variants that
  have a rule. \<open>target v\<close> says whether a symbol named \<open>v\<close> is the one differentiated
  by; \<open>spec_derivative x\<close> differentiates by the symbol named \<open>x\<close>.
\<close>

fun supported :: "tree \<Rightarrow> bool" where
  "supported (Leaf c v) = (c = Number \<or> c = Symbol)"
| "supported (Bin c t0 t1) =
     ((c = Add \<or> c = Sub \<or> c = Mul \<or> c = Div \<or> c = Pow_cls) \<and> supported t0 \<and> supported t1)"

fun tree_derivative :: "(pyval \<Rightarrow> bool) \<Rightarrow> tree \<Rightarrow> tree" where
  "tree_derivative target (Leaf c v) =
     (if c = Symbol \<and> target v then Leaf Number (PyInt 1) else Leaf Number (PyInt 0))"
| "tree_derivative target (Bin c x0 x1) =
     (let o0 = tree_derivative target x0; o1 = tree_derivative target x1 in
      if c = Add then Bin Add o0 o1
      else if c = Sub then Bin Sub o0 o1
      else if c = Mul then Bin Add (Bin Mul o0 x1) (Bin Mul o1 x0)
      else if c = Div then
        Bin Div (Bin Sub (Bin Mul o0 x1) (Bin Mul o1 x0)) (Bin Pow_cls x1 (Leaf Number (PyInt 2)))
      else Bin Mul (Bin Mul o0 x1) (Bin Pow_cls x0 (Bin Sub x1 (Leaf Number (PyInt 1)))))"

definition spec_derivative :: "string \<Rightarrow> tree \<Rightarrow> tree" where
  "spec_derivative x = tree_derivative (\<lambda>v. v = PyStr x)"

section \<open>A visiting function that counts\<close>

text \<open>
  A function for \<open>postvisitor\<close> that adds one to the sum of its operands' results, so
  that the result for a node is the number of nodes of its tree, and that appends the
  node it is called on to a log kept in the host state.
\<close>

definition count_nodes :: "addr \<Rightarrow> int list \<Rightarrow> kwargs \<Rightarrow> (int, addr list) action" where
  "count_nodes e rs kw w = Inr (1 + sum_list rs, w\<lparr>user := user w @ [e]\<rparr>)"

text \<open>\<^verbatim>\<open>y = Symbol("x") + Symbol("x"); z = y * y\<close>: the objects in the order of their
  construction, \<open>y\<close> at index 2 and \<open>z\<close> at index 3.\<close>

definition shared_heap :: "obj list" where
  "shared_heap =
     [terminal_obj Symbol (PyStr ''x''), terminal_obj Symbol (PyStr ''x''),
      operator_obj Add 0 1, operator_obj Mul 2 2]"

text \<open>\<^verbatim>\<open>x * y\<close>, \<^verbatim>\<open>x / y\<close> and \<^verbatim>\<open>x ** y\<close> over two symbols, followed by two numbers that
  stand for the derivatives of the operands.\<close>

definition rules_heap :: "obj list" where
  "rules_heap =
     [terminal_obj Symbol (PyStr ''x''), terminal_obj Symbol (PyStr ''y''),
      operator_obj Mul 0 1, operator_obj Div 0 1, operator_obj Pow_cls 0 1,
      terminal_obj Number (PyInt 1), terminal_obj Number (PyInt 0)]"

section \<open>Basic facts about construction\<close>

lemma heap_extend [simp]: "heap (extend_heap w objs) = heap w @ objs"
  by (simp add: extend_heap_def)

lemma user_extend [simp]: "user (extend_heap w objs) = user w"
  by (simp add: extend_heap_def)

lemma extend_extend [simp]: "extend_heap (extend_heap w xs) ys = extend_heap w (xs @ ys)"
  by (simp add: extend_heap_def)

lemma and_then_Inr: "m w = Inr (x, w1) \<Longrightarrow> and_then m f w = f x w1"
  by (simp add: and_then_def)

lemma and_then_Inl: "m w = Inl err \<Longrightarrow> and_then m f w = Inl err"
  by (simp add: and_then_def)

lemma getitem_in: "i < length xs \<Longrightarrow> getitem xs i w = Inr (xs ! i, w)"
  by (simp add: getitem_def)

lemma getitem_out: "\<not> i < length xs \<Longrightarrow> getitem xs i w = Inl IndexError"
  by (simp add: getitem_def)

lemma Expression_init_pair:
  "Expression_init c [l, r] w = Inr (length (heap w), extend_heap w [operator_obj c l r])"
  by (simp add: Expression_init_def extend_heap_def operator_obj_def)

lemma Number_init_number:
  "is_number v \<Longrightarrow> Number_init (Lit v) w = Inr (length (heap w), extend_heap w [terminal_obj Number v])"
  by (simp add: Number_init_def Terminal_init_def extend_heap_def terminal_obj_def)

lemma Symbol_init_str:
  "is_str v \<Longrightarrow> Symbol_init (Lit v) w = Inr (length (heap w), extend_heap w [terminal_obj Symbol v])"
  by (simp add: Symbol_init_def Terminal_init_def extend_heap_def terminal_obj_def)

lemma Number_init_fails:
  "(Number_init x w = Inl TypeError) = (\<not> (\<exists>v. x = Lit v \<and> is_number v))"
  by (cases x) (auto simp: Number_init_def Terminal_init_def)

lemma Symbol_init_fails:
  "(Symbol_init x w = Inl TypeError) = (\<not> (\<exists>v. x = Lit v \<and> is_str v))"
  by (cases x) (auto simp: Symbol_init_def Terminal_init_def)

lemma binary_Ref:
  "Expression_add a (Ref b) w = Inr (length (heap w), extend_heap w [operator_obj Add a b])"
  "Expression_sub a (Ref b) w = Inr (length (heap w), extend_heap w [operator_obj Sub a b])"
  "Expression_mul a (Ref b) w = Inr (length (heap w), extend_heap w [operator_obj Mul a b])"
  "Expression_truediv a (Ref b) w = Inr (length (heap w), extend_heap w [operator_obj Div a b])"
  "Expression_pow a (Ref b) w = Inr (length (heap w), extend_heap w [operator_obj Pow_cls a b])"
  by (simp_all add: Expression_add_def Expression_sub_def Expression_mul_def
      Expression_truediv_def Expression_pow_def Expression_init_pair)

lemma binary_Lit:
  assumes "is_number v"
  shows "Expression_add a (Lit v) w =
           Inr (Suc (length (heap w)), extend_heap w [terminal_obj Number v, operator_obj Add a (length (heap w))])"
    and "Expression_sub a (Lit v) w =
           Inr (Suc (length (heap w)), extend_heap w [terminal_obj Number v, operator_obj Sub a (length (heap w))])"
    and "Expression_mul a (Lit v) w =
           Inr (Suc (length (heap w)), extend_heap w [terminal_obj Number v, operator_obj Mul a (length (heap w))])"
    and "Expression_truediv a (Lit v) w =
           Inr (Suc (length (heap w)), extend_heap w [terminal_obj Number v, operator_obj Div a (length (heap w))])"
    and "Expression_pow a (Lit v) w =
           Inr (Suc (length (heap w)), extend_heap w [terminal_obj Number v, operator_obj Pow_cls a (length (heap w))])"
  using assms
  by (simp_all add: Expression_add_def Expression_sub_def Expression_mul_def
      Expression_truediv_def Expression_pow_def Expression_init_pair and_then_def
      Number_init_number)

lemma reflected_Lit:
  assumes "is_number v"
  shows "Expression_radd a (Lit v) w =
           Inr (Suc (length (heap w)), extend_heap w [terminal_obj Number v, operator_obj Add (length (heap w)) a])"
    and "Expression_rsub a (Lit v) w =
           Inr (Suc (length (heap w)), extend_heap w [terminal_obj Number v, operator_obj Sub (length (heap w)) a])"
    and "Expression_rmul a (Lit v) w =
           Inr (Suc (length (heap w)), extend_heap w [terminal_obj Number v, operator_obj Mul (length (heap w)) a])"
    and "Expression_rtruediv a (Lit v) w =
           Inr (Suc (length (heap w)), extend_heap w [terminal_obj Number v, operator_obj Div (length (heap w)) a])"
    and "Expression_rpow a (Lit v) w =
           Inr (Suc (length (heap w)), extend_heap w [terminal_obj Number v, operator_obj Pow_cls (length (heap w)) a])"
  using assms
  by (simp_all add: Expression_radd_def Expression_rsub_def Expression_rmul_def
      Expression_rtruediv_def Expression_rpow_def Expression_init_pair and_then_def
      Number_init_number)

lemma operand_old:
  "e < length (heap w) \<Longrightarrow> operand e i (extend_heap w objs) = getitem (operands (heap w ! e)) i (extend_heap w objs)"
  by (simp add: operand_def nth_append)

lemma operand_now: "operand e i w = getitem (operands (heap w ! e)) i w"
  by (simp add: operand_def)

lemma differentiate_Add_eq:
  "differentiate_Add e os kw w =
     (if 1 < length os then Inr (length (heap w), extend_heap w [operator_obj Add (os ! 0) (os ! 1)])
      else Inl IndexError)"
  by (simp add: differentiate_Add_def and_then_def getitem_def binary_Ref)

lemma differentiate_Sub_eq:
  "differentiate_Sub e os kw w =
     (if 1 < length os then Inr (length (heap w), extend_heap w [operator_obj Sub (os ! 0) (os ! 1)])
      else Inl IndexError)"
  by (simp add: differentiate_Sub_def and_then_def getitem_def binary_Ref)

lemma differentiate_Mul_eq:
  assumes "e < length (heap w)"
  shows "differentiate_Mul e os kw w =
     (if 1 < length os \<and> 1 < length (operands (heap w ! e)) then
        Inr (length (heap w) + 2,
             extend_heap w [operator_obj Mul (os ! 0) (operands (heap w ! e) ! 1),
                       operator_obj Mul (os ! 1) (operands (heap w ! e) ! 0),
                       operator_obj Add (length (heap w)) (length (heap w) + 1)])
      else Inl IndexError)"
  using assms
  by (simp add: differentiate_Mul_def and_then_def getitem_def binary_Ref operand_def nth_append eval_nat_numeral)

lemma differentiate_Div_eq:
  assumes "e < length (heap w)"
  shows "differentiate_Div e os kw w =
     (if 1 < length os \<and> 1 < length (operands (heap w ! e)) then
        Inr (length (heap w) + 5,
             extend_heap w [operator_obj Mul (os ! 0) (operands (heap w ! e) ! 1),
                       operator_obj Mul (os ! 1) (operands (heap w ! e) ! 0),
                       operator_obj Sub (length (heap w)) (length (heap w) + 1),
                       terminal_obj Number (PyInt 2),
                       operator_obj Pow_cls (operands (heap w ! e) ! 1) (length (heap w) + 3),
                       operator_obj Div (length (heap w) + 2) (length (heap w) + 4)])
      else Inl IndexError)"
  using assms
  by (simp add: differentiate_Div_def and_then_def getitem_def binary_Ref binary_Lit operand_def nth_append eval_nat_numeral)

lemma differentiate_Pow_eq:
  assumes "e < length (heap w)"
  shows "differentiate_Pow e os kw w =
     (if 0 < length os \<and> 1 < length (operands (heap w ! e)) then
        Inr (length (heap w) + 4,
             extend_heap w [operator_obj Mul (os ! 0) (operands (heap w ! e) ! 1),
                       terminal_obj Number (PyInt 1),
                       operator_obj Sub (operands (heap w ! e) ! 1) (length (heap w) + 1),
                       operator_obj Pow_cls (operands (heap w ! e) ! 0) (length (heap w) + 2),
                       operator_obj Mul (length (heap w)) (length (heap w) + 3)])
      else Inl IndexError)"
  using assms
  by (simp add: differentiate_Pow_def and_then_def getitem_def binary_Ref binary_Lit operand_def nth_append eval_nat_numeral)

section \<open>The traversal, one object at a time\<close>

lemma those_map_visited:
  "\<forall>x\<in>set xs. V x \<noteq> None \<Longrightarrow> those (map V xs) = Some (map (\<lambda>x. the (V x)) xs)"
  by (induction xs) auto

lemma loop_ready:
  assumes "\<forall>x\<in>set (operands (heap w ! e)). V x \<noteq> None"
  shows "postvisitor_loop fn kw (e # rest) V w =
           (case fn e (map (\<lambda>x. the (V x)) (operands (heap w ! e))) kw w of
              Inl err \<Rightarrow> Some (Inl err)
            | Inr (r, w') \<Rightarrow> postvisitor_loop fn kw rest (V(e \<mapsto> r)) w')"
proof -
  have "filter (\<lambda>x. V x = None) (operands (heap w ! e)) = []"
    using assms by (simp add: filter_empty_conv)
  then show ?thesis
    by (subst postvisitor_loop.simps) (simp add: those_map_visited[OF assms])
qed

lemma loop_push:
  assumes "\<not> (\<forall>x\<in>set (operands (heap w ! e)). V x \<noteq> None)"
  shows "postvisitor_loop fn kw (e # rest) V w =
           postvisitor_loop fn kw
             (rev (filter (\<lambda>x. V x = None) (operands (heap w ! e))) @ e # rest) V w"
proof -
  have "filter (\<lambda>x. V x = None) (operands (heap w ! e)) \<noteq> []"
    using assms by (simp add: filter_empty_conv)
  then show ?thesis
    by (subst postvisitor_loop.simps) simp
qed

lemma visit_top:
  fixes fn :: "addr \<Rightarrow> 'r list \<Rightarrow> 'k \<Rightarrow> ('r, 'u) action"
  assumes wf: "\<And>a x. a < N \<Longrightarrow> x \<in> set (ops a) \<Longrightarrow> x < a"
    and P_ops: "\<And>w a. P w \<Longrightarrow> a < N \<Longrightarrow> operands (heap w ! a) = ops a"
    and ok_closed: "\<And>a x. ok a \<Longrightarrow> x \<in> set (ops a) \<Longrightarrow> ok x"
    and step: "\<And>w a rs. P w \<Longrightarrow> a < N \<Longrightarrow> list_all2 (Q w) (ops a) rs \<Longrightarrow>
        (case fn a rs kw w of
           Inl err \<Rightarrow> \<not> ok a
         | Inr (r, w') \<Rightarrow> P w' \<and> Q w' a r \<and> (\<forall>b s. Q w b s \<longrightarrow> Q w' b s))"
  shows "a < N \<Longrightarrow> P w \<Longrightarrow> (\<forall>b s. V b = Some s \<longrightarrow> Q w b s) \<Longrightarrow>
     (\<not> ok a \<and> (\<exists>err. postvisitor_loop fn kw (a # rest) V w = Some (Inl err))) \<or>
     (\<exists>V' w'. postvisitor_loop fn kw (a # rest) V w = postvisitor_loop fn kw rest V' w'
        \<and> P w' \<and> dom V \<subseteq> dom V' \<and> a \<in> dom V' \<and> (\<forall>b s. V' b = Some s \<longrightarrow> Q w' b s))"
proof (induction a arbitrary: rest V w rule: less_induct)
  case (less a)
  let ?loop = "postvisitor_loop fn kw"
  have ready: "(\<not> ok a \<and> (\<exists>err. ?loop (a # rest) V1 w1 = Some (Inl err))) \<or>
     (\<exists>V' w'. ?loop (a # rest) V1 w1 = ?loop rest V' w'
        \<and> P w' \<and> dom V1 \<subseteq> dom V' \<and> a \<in> dom V' \<and> (\<forall>b s. V' b = Some s \<longrightarrow> Q w' b s))"
    if P1: "P w1" and inv1: "\<forall>b s. V1 b = Some s \<longrightarrow> Q w1 b s"
      and all1: "\<forall>x\<in>set (ops a). V1 x \<noteq> None" for V1 w1
  proof -
    have ops1: "operands (heap w1 ! a) = ops a" using P_ops[OF P1 less.prems(1)] .
    let ?rs = "map (\<lambda>x. the (V1 x)) (ops a)"
    have unfold: "?loop (a # rest) V1 w1 =
        (case fn a ?rs kw w1 of Inl err \<Rightarrow> Some (Inl err)
         | Inr (r, w') \<Rightarrow> ?loop rest (V1(a \<mapsto> r)) w')"
      using loop_ready[of w1 a V1 fn kw rest] all1 ops1 by simp
    have "list_all2 (Q w1) (ops a) ?rs"
      using all1 inv1 by (auto simp: list_all2_conv_all_nth)
    from step[OF P1 less.prems(1) this]
    show ?thesis
    proof (cases "fn a ?rs kw w1")
      case (Inl err)
      with \<open>case fn a ?rs kw w1 of Inl err \<Rightarrow> \<not> ok a | Inr (r, w') \<Rightarrow> _ r w'\<close> unfold
      show ?thesis by simp
    next
      case (Inr p)
      obtain r w' where p: "p = (r, w')" by (cases p)
      from Inr p \<open>case fn a ?rs kw w1 of Inl err \<Rightarrow> \<not> ok a | Inr (r, w') \<Rightarrow> _ r w'\<close>
      have P': "P w'" and Qa: "Q w' a r" and mono: "\<forall>b s. Q w1 b s \<longrightarrow> Q w' b s"
        by simp_all
      have eq: "?loop (a # rest) V1 w1 = ?loop rest (V1(a \<mapsto> r)) w'"
        using unfold Inr p by simp
      have inv': "\<forall>b s. (V1(a \<mapsto> r)) b = Some s \<longrightarrow> Q w' b s"
        using inv1 mono Qa by auto
      have "dom V1 \<subseteq> dom (V1(a \<mapsto> r))" "a \<in> dom (V1(a \<mapsto> r))" by auto
      with eq P' inv' show ?thesis by blast
    qed
  qed
  have children: "(\<exists>c\<in>set cs. \<not> ok c) \<and> (\<exists>err. ?loop (cs @ S) V1 w1 = Some (Inl err)) \<or>
     (\<exists>V' w'. ?loop (cs @ S) V1 w1 = ?loop S V' w'
        \<and> P w' \<and> dom V1 \<subseteq> dom V' \<and> set cs \<subseteq> dom V' \<and> (\<forall>b s. V' b = Some s \<longrightarrow> Q w' b s))"
    if "\<forall>c\<in>set cs. c < a" and "P w1" and "\<forall>b s. V1 b = Some s \<longrightarrow> Q w1 b s" for cs S V1 w1
    using that
  proof (induction cs arbitrary: V1 w1)
    case Nil
    then show ?case by auto
  next
    case (Cons c cs)
    have c: "c < a" and cN: "c < N" using Cons.prems(1) less.prems(1) by auto
    from less.IH[OF c cN Cons.prems(2) Cons.prems(3), of "cs @ S"]
    show ?case
    proof (elim disjE conjE exE)
      fix err assume "\<not> ok c" "?loop (c # cs @ S) V1 w1 = Some (Inl err)"
      then show ?thesis by auto
    next
      fix V2 w2
      assume eq: "?loop (c # cs @ S) V1 w1 = ?loop (cs @ S) V2 w2"
        and P2: "P w2" and d2: "dom V1 \<subseteq> dom V2" and c2: "c \<in> dom V2"
        and inv2: "\<forall>b s. V2 b = Some s \<longrightarrow> Q w2 b s"
      have "\<forall>c\<in>set cs. c < a" using Cons.prems(1) by simp
      from Cons.IH[OF this P2 inv2]
      show ?thesis
      proof (elim disjE conjE exE)
        fix err assume "\<exists>c\<in>set cs. \<not> ok c" "?loop (cs @ S) V2 w2 = Some (Inl err)"
        then show ?thesis using eq by auto
      next
        fix V3 w3
        assume "?loop (cs @ S) V2 w2 = ?loop S V3 w3" "P w3" "dom V2 \<subseteq> dom V3"
          "set cs \<subseteq> dom V3" "\<forall>b s. V3 b = Some s \<longrightarrow> Q w3 b s"
        moreover from \<open>dom V2 \<subseteq> dom V3\<close> d2 c2 have "dom V1 \<subseteq> dom V3" "c \<in> dom V3"
          by blast+
        ultimately have "?loop ((c # cs) @ S) V1 w1 = ?loop S V3 w3 \<and> P w3 \<and> dom V1 \<subseteq> dom V3
           \<and> set (c # cs) \<subseteq> dom V3 \<and> (\<forall>b s. V3 b = Some s \<longrightarrow> Q w3 b s)"
          using eq by simp
        then show ?thesis by blast
      qed
    qed
  qed
  have opsw: "operands (heap w ! a) = ops a" using P_ops[OF less.prems(2) less.prems(1)] .
  show ?case
  proof (cases "\<forall>x\<in>set (ops a). V x \<noteq> None")
    case True
    from ready[OF less.prems(2) less.prems(3) True] show ?thesis .
  next
    case False
    let ?unv = "filter (\<lambda>x. V x = None) (ops a)"
    have push: "?loop (a # rest) V w = ?loop (rev ?unv @ a # rest) V w"
      using loop_push[of w a V fn kw rest] False opsw by simp
    have small: "\<forall>c\<in>set (rev ?unv). c < a" using wf[OF less.prems(1)] by auto
    from children[OF small less.prems(2) less.prems(3), of "a # rest"]
    show ?thesis
    proof (elim disjE conjE exE)
      fix err assume bad: "\<exists>c\<in>set (rev ?unv). \<not> ok c"
        and "?loop (rev ?unv @ a # rest) V w = Some (Inl err)"
      then have "?loop (a # rest) V w = Some (Inl err)" using push by simp
      moreover have "\<not> ok a" using bad ok_closed by auto
      ultimately show ?thesis by blast
    next
      fix V2 w2
      assume eq: "?loop (rev ?unv @ a # rest) V w = ?loop (a # rest) V2 w2"
        and P2: "P w2" and d2: "dom V \<subseteq> dom V2" and c2: "set (rev ?unv) \<subseteq> dom V2"
        and inv2: "\<forall>b s. V2 b = Some s \<longrightarrow> Q w2 b s"
      have all2: "\<forall>x\<in>set (ops a). V2 x \<noteq> None"
      proof
        fix x assume x: "x \<in> set (ops a)"
        show "V2 x \<noteq> None"
        proof (cases "V x = None")
          case True
          then have "x \<in> set (rev ?unv)" using x by simp
          then show ?thesis using c2 by auto
        next
          case False
          then show ?thesis using d2 by auto
        qed
      qed
      from ready[OF P2 inv2 all2]
      show ?thesis
      proof (elim disjE conjE exE)
        fix err assume "\<not> ok a" "?loop (a # rest) V2 w2 = Some (Inl err)"
        then show ?thesis using push eq by simp
      next
        fix V3 w3
        assume "?loop (a # rest) V2 w2 = ?loop rest V3 w3" "P w3" "dom V2 \<subseteq> dom V3"
          "a \<in> dom V3" "\<forall>b s. V3 b = Some s \<longrightarrow> Q w3 b s"
        moreover from \<open>dom V2 \<subseteq> dom V3\<close> d2 have "dom V \<subseteq> dom V3" by blast
        ultimately have "?loop (a # rest) V w = ?loop rest V3 w3 \<and> P w3 \<and> dom V \<subseteq> dom V3
           \<and> a \<in> dom V3 \<and> (\<forall>b s. V3 b = Some s \<longrightarrow> Q w3 b s)"
          using push eq by simp
        then show ?thesis by blast
      qed
    qed
  qed
qed

lemma postvisitor_generic:
  fixes fn :: "addr \<Rightarrow> 'r list \<Rightarrow> 'k \<Rightarrow> ('r, 'u) action"
  assumes wf: "\<And>a x. a < N \<Longrightarrow> x \<in> set (ops a) \<Longrightarrow> x < a"
    and P_ops: "\<And>w a. P w \<Longrightarrow> a < N \<Longrightarrow> operands (heap w ! a) = ops a"
    and ok_closed: "\<And>a x. ok a \<Longrightarrow> x \<in> set (ops a) \<Longrightarrow> ok x"
    and step: "\<And>w a rs. P w \<Longrightarrow> a < N \<Longrightarrow> list_all2 (Q w) (ops a) rs \<Longrightarrow>
        (case fn a rs kw w of
           Inl err \<Rightarrow> \<not> ok a
         | Inr (r, w') \<Rightarrow> P w' \<and> Q w' a r \<and> (\<forall>b s. Q w b s \<longrightarrow> Q w' b s))"
    and e: "e < N" and P: "P w"
  shows "(\<not> ok e \<and> (\<exists>err. postvisitor e fn kw w = Some (Inl err))) \<or>
         (\<exists>r w'. postvisitor e fn kw w = Some (Inr (r, w')) \<and> P w' \<and> Q w' e r)"
proof -
  have "(\<not> ok e \<and> (\<exists>err. postvisitor_loop fn kw (e # []) Map.empty w = Some (Inl err))) \<or>
     (\<exists>V' w'. postvisitor_loop fn kw (e # []) Map.empty w = postvisitor_loop fn kw [] V' w'
        \<and> P w' \<and> dom (Map.empty :: addr \<rightharpoonup> 'r) \<subseteq> dom V' \<and> e \<in> dom V'
        \<and> (\<forall>b s. V' b = Some s \<longrightarrow> Q w' b s))"
  proof (rule visit_top[where N=N and ops=ops and P=P and ok=ok and Q=Q])
    show "x < a" if "a < N" "x \<in> set (ops a)" for a x using that by (rule wf)
    show "operands (heap w ! a) = ops a" if "P w" "a < N" for w a using that by (rule P_ops)
    show "ok x" if "ok a" "x \<in> set (ops a)" for a x using that by (rule ok_closed)
    show "case fn a rs kw w of Inl err \<Rightarrow> \<not> ok a
         | Inr (r, w') \<Rightarrow> P w' \<and> Q w' a r \<and> (\<forall>b s. Q w b s \<longrightarrow> Q w' b s)"
      if "P w" "a < N" "list_all2 (Q w) (ops a) rs" for w a rs using that by (rule step)
    show "e < N" by (rule e)
    show "P w" by (rule P)
    show "\<forall>b s. (Map.empty :: addr \<rightharpoonup> 'r) b = Some s \<longrightarrow> Q w b s" by simp
  qed
  then
  show ?thesis
  proof (elim disjE conjE exE)
    fix err assume "\<not> ok e" "postvisitor_loop fn kw [e] Map.empty w = Some (Inl err)"
    then show ?thesis by (simp add: postvisitor_def)
  next
    fix V' w'
    assume eq: "postvisitor_loop fn kw [e] Map.empty w = postvisitor_loop fn kw [] V' w'"
      and P': "P w'" and dom: "e \<in> dom V'" and inv: "\<forall>b s. V' b = Some s \<longrightarrow> Q w' b s"
    from dom obtain r where r: "V' e = Some r" by auto
    have "postvisitor_loop fn kw [] V' w' = Some (Inr (V', w'))"
      by (subst postvisitor_loop.simps) simp
    with eq r have "postvisitor e fn kw w = Some (Inr (r, w'))"
      by (simp add: postvisitor_def)
    with P' inv r show ?thesis by blast
  qed
qed

lemma wf_from_iff:
  "wf_from n h = (\<forall>i<length h. \<forall>x\<in>set (operands (h ! i)). x < n + i)"
proof (induction h arbitrary: n)
  case Nil
  show ?case by simp
next
  case (Cons ob h)
  show ?case
    by (simp add: Cons.IH list_all_iff All_less_Suc2)
qed

lemma wf_heap_iff:
  "wf_heap h = (\<forall>e<length h. \<forall>x\<in>set (operands (h ! e)). x < e)"
  by (simp add: wf_heap_def wf_from_iff)

lemma wf_from_append:
  "wf_from n (h @ new) = (wf_from n h \<and> wf_from (n + length h) new)"
  by (induction h arbitrary: n) auto

lemma wf_heap_append:
  "wf_heap (h @ new) = (wf_heap h \<and> wf_from (length h) new)"
  by (simp add: wf_heap_def wf_from_append)

lemma repr_valid: "repr h e t \<Longrightarrow> e < length h"
  by (auto elim: repr.cases)

lemma repr_append: "repr h e t \<Longrightarrow> repr (h @ new) e t"
  by (induction rule: repr.induct) (auto intro: repr.intros simp: nth_append)

lemma py_eq_PyStr: "py_eq v (PyStr x) = (v = PyStr x)"
  by (cases v) (auto simp: py_eq_def)

lemma py_eq_PyStr_left: "py_eq (PyStr x) v = (v = PyStr x)"
  by (cases v) (auto simp: py_eq_def)

lemma py_in_PyStr: "py_in (PyStr s) xs = (Lit (PyStr s) \<in> set xs)"
  by (induction xs) (auto simp: py_in_def py_eq_PyStr_left split: arg.splits)

lemma dispatch_registered: "registered c \<Longrightarrow> dispatch c = Some c"
  by (cases c) (auto simp: dispatch_def registered_def)

lemma dispatch_exact [simp]:
  "dispatch Number = Some Number" "dispatch Symbol = Some Symbol" "dispatch Add = Some Add"
  "dispatch Sub = Some Sub" "dispatch Mul = Some Mul" "dispatch Div = Some Div"
  "dispatch Pow_cls = Some Pow_cls"
  by (simp_all add: dispatch_registered registered_def)

lemma dispatch_Some_registered: "dispatch c = Some k \<Longrightarrow> registered k"
  by (auto simp: dispatch_def find_Some_iff)

lemma differentiate_Number_eq:
  "differentiate_Number e os kw w =
     Inr (length (heap w), extend_heap w [terminal_obj Number (PyInt 0)])"
  by (simp add: differentiate_Number_def Number_init_number)

lemma differentiate_Symbol_eq:
  "differentiate_Symbol e os kw w =
     (case val (heap w ! e) of
        None \<Rightarrow> Inl AttributeError
      | Some v \<Rightarrow> Inr (length (heap w),
          extend_heap w [terminal_obj Number (PyInt (if py_in v (map snd kw) then 1 else 0))]))"
  by (simp add: differentiate_Symbol_def Number_init_number split: option.splits)

lemma differentiate_frame:
  assumes res: "differentiate e os kw w = Inr (r, w')"
    and e: "e < length (heap w)"
    and wf: "wf_heap (heap w)"
    and os: "\<forall>x\<in>set os. x < length (heap w)"
  shows "take (length (heap w)) (heap w') = heap w \<and> user w' = user w
           \<and> length (heap w) \<le> r \<and> r < length (heap w') \<and> wf_heap (heap w')"
proof -
  have small: "\<forall>x\<in>set (operands (heap w ! e)). x < length (heap w)"
    using wf e by (auto simp: wf_heap_iff intro: less_trans)
  have nth_os: "os ! i < length (heap w)" if "i < length os" for i
    using os nth_mem[OF that] by blast
  have nth_ops: "operands (heap w ! e) ! i < length (heap w)"
    if "i < length (operands (heap w ! e))" for i
    using small nth_mem[OF that] by blast
  have b: "(0 < length os \<longrightarrow> os ! 0 < length (heap w))"
    "(Suc 0 < length os \<longrightarrow> os ! Suc 0 < length (heap w))"
    "(Suc 0 < length (operands (heap w ! e)) \<longrightarrow>
        operands (heap w ! e) ! 0 < length (heap w) \<and> operands (heap w ! e) ! Suc 0 < length (heap w))"
    using nth_os[of 0] nth_os[of "Suc 0"] nth_ops[of 0] nth_ops[of "Suc 0"] by linarith+
  note eqs = differentiate_Number_eq differentiate_Symbol_eq differentiate_Add_eq
    differentiate_Sub_eq differentiate_Mul_eq[OF e] differentiate_Div_eq[OF e]
    differentiate_Pow_eq[OF e]
  from res b show ?thesis
    unfolding differentiate_def differentiate_base_def eqs
    by (auto split: option.splits if_splits
        simp: operator_obj_def terminal_obj_def wf_heap_append wf)
qed

section \<open>The rule of a node on the tree it denotes\<close>

lemma differentiate_correct:
  fixes kw :: kwargs
  defines "D \<equiv> tree_derivative (\<lambda>v. py_in v (map snd kw))"
  assumes t: "repr h0 a t" and sup: "supported t"
    and pre: "heap w = h0 @ ext"
    and rs: "list_all2 (\<lambda>x r. \<forall>t. repr h0 x t \<and> supported t \<longrightarrow> repr (heap w) r (D t))
               (operands (h0 ! a)) rs"
  shows "\<exists>r w'. differentiate a rs kw w = Inr (r, w') \<and> repr (heap w') r (D t)"
proof (cases t)
  case (Leaf c v)
  with t have a: "a < length h0" and c: "cls_of (h0 ! a) = c" and v: "val (h0 ! a) = Some v"
    by (auto elim: repr.cases)
  have here: "heap w ! a = h0 ! a" using a pre by (simp add: nth_append)
  from sup Leaf have "c = Number \<or> c = Symbol" by simp
  then show ?thesis
  proof
    assume "c = Number"
    then show ?thesis
      using Leaf c here
      by (auto simp: differentiate_def differentiate_Number_eq D_def terminal_obj_def
          intro!: repr.intros)
  next
    assume "c = Symbol"
    then show ?thesis
      using Leaf c v here
      by (auto simp: differentiate_def differentiate_Symbol_eq D_def terminal_obj_def
          intro!: repr.intros)
  qed
next
  case (Bin c t0 t1)
  with t obtain l r where a: "a < length h0" and c: "cls_of (h0 ! a) = c"
    and ops: "operands (h0 ! a) = [l, r]" and rl: "repr h0 l t0" and rr: "repr h0 r t1"
    by (auto elim: repr.cases)
  have here: "heap w ! a = h0 ! a" and aw: "a < length (heap w)" using a pre by (simp_all add: nth_append)
  from sup Bin have s0: "supported t0" and s1: "supported t1"
    and cc: "c = Add \<or> c = Sub \<or> c = Mul \<or> c = Div \<or> c = Pow_cls" by auto
  from rs ops obtain o0 o1 where rs_eq: "rs = [o0, o1]"
    and q0: "repr (heap w) o0 (D t0)" and q1: "repr (heap w) o1 (D t1)"
    using rl rr s0 s1 by (auto simp: list_all2_Cons1)
  have x0: "repr (heap w) l t0" and x1: "repr (heap w) r t1"
    using rl rr pre by (simp_all add: repr_append)
  note lift = repr_append[OF q0] repr_append[OF q1] repr_append[OF x0] repr_append[OF x1]
  from cc show ?thesis
  proof (elim disjE)
    assume "c = Add"
    then show ?thesis
      using Bin c here rs_eq lift
      by (auto simp: differentiate_def differentiate_Add_eq D_def operator_obj_def nth_append
          intro!: repr.intros)
  next
    assume "c = Sub"
    then show ?thesis
      using Bin c here rs_eq lift
      by (auto simp: differentiate_def differentiate_Sub_eq D_def operator_obj_def nth_append
          intro!: repr.intros)
  next
    assume "c = Mul"
    then show ?thesis
      using Bin c here rs_eq ops lift
      by (auto simp: differentiate_def differentiate_Mul_eq[OF aw] D_def operator_obj_def nth_append
          intro!: repr.intros)
  next
    assume "c = Div"
    then show ?thesis
      using Bin c here rs_eq ops lift
      by (auto simp: differentiate_def differentiate_Div_eq[OF aw] D_def operator_obj_def
          terminal_obj_def nth_append intro!: repr.intros)
  next
    assume "c = Pow_cls"
    then show ?thesis
      using Bin c here rs_eq ops lift
      by (auto simp: differentiate_def differentiate_Pow_eq[OF aw] D_def operator_obj_def
          terminal_obj_def nth_append intro!: repr.intros)
  qed
qed

lemma isinstance_Terminal_not_Operator: "isinstance c Terminal \<Longrightarrow> \<not> isinstance c Operator"
  by (induction c) (auto simp: isinstance_def)

lemma str_expr_repr:
  "repr h e t \<Longrightarrow> well_typed t \<Longrightarrow> height t \<le> d \<Longrightarrow> str_expr fmt d h e = Inr (spec_render fmt t)"
proof (induction t arbitrary: e d)
  case (Leaf c v)
  from Leaf.prems(3) obtain d' where d: "d = Suc d'" by (cases d) auto
  from Leaf.prems(1) have "cls_of (h ! e) = c" "val (h ! e) = Some v"
    by (auto elim: repr.cases)
  with Leaf.prems(2) show ?case by (simp add: d Terminal_str_def)
next
  case (Bin c t0 t1)
  from Bin.prems(3) obtain d' where d: "d = Suc d'" and h0: "height t0 \<le> d'" and h1: "height t1 \<le> d'"
    by (cases d) auto
  from Bin.prems(1) obtain l r where c: "cls_of (h ! e) = c" and ops: "operands (h ! e) = [l, r]"
    and rl: "repr h l t0" and rr: "repr h r t1"
    by (auto elim: repr.cases)
  from Bin.prems(2) have op: "isinstance c Operator" and w0: "well_typed t0" and w1: "well_typed t1" by auto
  have nt: "\<not> isinstance c Terminal" using op isinstance_Terminal_not_Operator by blast
  have s0: "str_expr fmt d' h l = Inr (spec_render fmt t0)" using Bin.IH(1)[OF rl w0 h0] .
  have s1: "str_expr fmt d' h r = Inr (spec_render fmt t1)" using Bin.IH(2)[OF rr w1 h1] .
  have p0: "(isinstance (cls_of (h ! l)) Operator \<and> precedence (cls_of (h ! l)) < precedence c) = lower_precedence t0 c"
    using rl w0 isinstance_Terminal_not_Operator by (cases t0) (auto elim: repr.cases)
  have p1: "(isinstance (cls_of (h ! r)) Operator \<and> precedence (cls_of (h ! r)) < precedence c) = lower_precedence t1 c"
    using rr w1 isinstance_Terminal_not_Operator by (cases t1) (auto elim: repr.cases)
  show ?case
    by (simp add: d c ops nt op Operator_str_def s0 s1 p0 p1)
qed

section \<open>The traversal with the rules of differentiation\<close>

lemma str_expr_append:
  "wf_heap h \<Longrightarrow> e < length h \<Longrightarrow> str_expr fmt d (h @ new) e = str_expr fmt d h e"
proof (induction d arbitrary: e)
  case 0
  show ?case by simp
next
  case (Suc d)
  have here: "(h @ new) ! e = h ! e" using Suc.prems(2) by (simp add: nth_append)
  have small: "\<And>x. x \<in> set (operands (h ! e)) \<Longrightarrow> x < length h"
    using Suc.prems by (auto simp: wf_heap_iff intro: less_trans)
  have "Operator_str (\<lambda>x. str_expr fmt d (h @ new) x) (h @ new) (h ! e) =
        Operator_str (\<lambda>x. str_expr fmt d h x) h (h ! e)"
  proof (cases "\<exists>l r. operands (h ! e) = [l, r]")
    case True
    then obtain l r where ops: "operands (h ! e) = [l, r]" by blast
    then have l: "l < length h" and r: "r < length h" using small by auto
    show ?thesis
      by (auto simp: Operator_str_def ops Suc.IH[OF Suc.prems(1) l] Suc.IH[OF Suc.prems(1) r]
          nth_append l r split: sum.splits)
  next
    case False
    then show ?thesis
      by (auto simp: Operator_str_def split: list.splits)
  qed
  then show ?case by (simp add: here)
qed

lemma differentiate_traversal:
  fixes kw :: kwargs and w0 :: "'u world"
  assumes wf: "wf_heap (heap w0)" and e: "e < length (heap w0)"
  shows "(\<not> (\<exists>t. repr (heap w0) e t \<and> supported t)
            \<and> (\<exists>err. postvisitor e differentiate kw w0 = Some (Inl err))) \<or>
     (\<exists>r w'. postvisitor e differentiate kw w0 = Some (Inr (r, w'))
        \<and> (take (length (heap w0)) (heap w') = heap w0 \<and> user w' = user w0 \<and> wf_heap (heap w'))
        \<and> (length (heap w0) \<le> r \<and> r < length (heap w')
            \<and> (\<forall>t. repr (heap w0) e t \<and> supported t \<longrightarrow>
                  repr (heap w') r (tree_derivative (\<lambda>v. py_in v (map snd kw)) t))))"
proof -
  let ?N = "length (heap w0)"
  let ?h0 = "heap w0"
  let ?D = "tree_derivative (\<lambda>v. py_in v (map snd kw))"
  let ?ops = "\<lambda>a. operands (?h0 ! a)"
  let ?P = "\<lambda>w :: 'u world. take ?N (heap w) = ?h0 \<and> user w = user w0 \<and> wf_heap (heap w)"
  let ?ok = "\<lambda>a. \<exists>t. repr ?h0 a t \<and> supported t"
  let ?Q = "\<lambda>(w :: 'u world) a r. ?N \<le> r \<and> r < length (heap w)
              \<and> (\<forall>t. repr ?h0 a t \<and> supported t \<longrightarrow> repr (heap w) r (?D t))"
  have split_heap: "heap w = ?h0 @ drop ?N (heap w)" if "take ?N (heap w) = ?h0" for w :: "'u world"
    using append_take_drop_id[of ?N "heap w"] that by simp
  have len: "?N \<le> length (heap w)" if "take ?N (heap w) = ?h0" for w :: "'u world"
    using split_heap[OF that] by (metis le_add1 length_append)
  show ?thesis
  proof (rule postvisitor_generic[where N="?N" and ops="?ops" and P="?P" and ok="?ok" and Q="?Q"])
    show "x < a" if "a < ?N" "x \<in> set (?ops a)" for a x
      using that wf by (simp add: wf_heap_iff)
    show "operands (heap w ! a) = ?ops a" if "?P w" "a < ?N" for w a
    proof -
      have "heap w ! a = take ?N (heap w) ! a" using that(2) by simp
      then show ?thesis using that(1) by simp
    qed
    show "?ok x" if "?ok a" "x \<in> set (?ops a)" for a x
    proof -
      from that(1) obtain t where t: "repr ?h0 a t" "supported t" by blast
      show ?thesis
      proof (cases t)
        case (Leaf c v)
        with t(1) have "?ops a = []" by (auto elim: repr.cases)
        with that(2) show ?thesis by simp
      next
        case (Bin c t0 t1)
        with t(1) obtain l r where "?ops a = [l, r]" "repr ?h0 l t0" "repr ?h0 r t1"
          by (auto elim: repr.cases)
        with that(2) t(2) Bin show ?thesis by auto
      qed
    qed
    show "case differentiate a rs kw w of Inl err \<Rightarrow> \<not> ?ok a
          | Inr (r, w') \<Rightarrow> ?P w' \<and> ?Q w' a r \<and> (\<forall>b s. ?Q w b s \<longrightarrow> ?Q w' b s)"
      if Pw: "?P w" and a: "a < ?N" and rs: "list_all2 (?Q w) (?ops a) rs" for w a rs
    proof -
      have pre: "heap w = ?h0 @ drop ?N (heap w)" using split_heap Pw by blast
      have Nw: "?N \<le> length (heap w)" using len Pw by blast
      have aw: "a < length (heap w)" using a Nw by simp
      have wfw: "wf_heap (heap w)" using Pw by simp
      have rs_valid: "\<forall>x\<in>set rs. x < length (heap w)"
        using rs by (auto simp: list_all2_conv_all_nth in_set_conv_nth)
      have rs_weak: "list_all2 (\<lambda>x r. \<forall>t. repr ?h0 x t \<and> supported t \<longrightarrow> repr (heap w) r (?D t))
                       (?ops a) rs"
        using rs by (rule list_all2_mono) simp
      have correct: "\<exists>r w'. differentiate a rs kw w = Inr (r, w') \<and> repr (heap w') r (?D t)"
        if "repr ?h0 a t" "supported t" for t
        using differentiate_correct[OF that pre rs_weak] .
      show ?thesis
      proof (cases "differentiate a rs kw w")
        case (Inl err)
        then have "\<not> ?ok a" using correct by auto
        with Inl show ?thesis by simp
      next
        case (Inr p)
        obtain r w' where p: "p = (r, w')" by (cases p)
        have res: "differentiate a rs kw w = Inr (r, w')" using Inr p by simp
        from differentiate_frame[OF res aw wfw rs_valid]
        have tk: "take (length (heap w)) (heap w') = heap w" and us: "user w' = user w"
          and lo: "length (heap w) \<le> r" and hi: "r < length (heap w')" and wf': "wf_heap (heap w')"
          by simp_all
        have grow: "heap w' = heap w @ drop (length (heap w)) (heap w')"
          using append_take_drop_id[of "length (heap w)" "heap w'"] tk by simp
        have "take ?N (heap w') = take ?N (take (length (heap w)) (heap w'))"
          using Nw by (simp add: min_def)
        then have P': "?P w'" using tk us wf' Pw by simp
        have Qa: "?Q w' a r"
        proof (intro conjI allI impI)
          show "?N \<le> r" using Nw lo by simp
          show "r < length (heap w')" by (rule hi)
          fix t assume "repr ?h0 a t \<and> supported t"
          then show "repr (heap w') r (?D t)" using correct[of t] res by auto
        qed
        have mono: "\<forall>b s. ?Q w b s \<longrightarrow> ?Q w' b s"
        proof (intro allI impI)
          fix b s assume q: "?Q w b s"
          have "length (heap w) \<le> length (heap w')" using hi lo by simp
          moreover have "repr (heap w') s T" if "repr (heap w) s T" for T
            using repr_append[OF that, of "drop (length (heap w)) (heap w')"] grow by simp
          ultimately show "?Q w' b s" using q by auto
        qed
        show ?thesis using res P' Qa mono by simp
      qed
    qed
    show "e < ?N" by (rule e)
    show "?P w0" using wf by simp
  qed
qed

lemma single_target: "(\<lambda>v. py_in v (map snd [(name, Lit (PyStr x))])) = (\<lambda>v. v = PyStr x)"
  by (simp add: py_in_def py_eq_PyStr)

section \<open>Rendering follows precedence\<close>

text \<open>
  Claim C4. An operator node renders as left operand, blank, symbol, blank, right operand,
  an operand in parentheses exactly when it is itself an operator of strictly lower
  precedence (never at equal precedence), and a terminal renders as the string form of
  its value. \<open>spec_render\<close> is this description on the tree of the expression;
  \<^verbatim>\<open>str()\<close> on the object returns it whenever the recursion depth reaches the height
  of the tree.
\<close>
theorem str_parenthesizes_by_precedence:
  assumes "repr h e t" and "well_typed t" and "height t \<le> depth"
  shows "str_expr fmt depth h e = Inr (spec_render fmt t)"
  using assms by (rule str_expr_repr)

theorem str_parenthesizes_by_precedence_witness:
  "str_expr (\<lambda>v. '''') 3
     [terminal_obj Symbol (PyStr ''x''), terminal_obj Symbol (PyStr ''y''),
      terminal_obj Symbol (PyStr ''z''), operator_obj Add 0 1, operator_obj Mul 3 2,
      operator_obj Mul 0 1, operator_obj Add 5 2] 4 = Inr ''(x + y) * z''
   \<and> str_expr (\<lambda>v. '''') 3
     [terminal_obj Symbol (PyStr ''x''), terminal_obj Symbol (PyStr ''y''),
      terminal_obj Symbol (PyStr ''z''), operator_obj Add 0 1, operator_obj Mul 3 2,
      operator_obj Mul 0 1, operator_obj Add 5 2] 6 = Inr ''x * y + z''"
proof -
  let ?h = "[terminal_obj Symbol (PyStr ''x''), terminal_obj Symbol (PyStr ''y''),
      terminal_obj Symbol (PyStr ''z''), operator_obj Add 0 1, operator_obj Mul 3 2,
      operator_obj Mul 0 1, operator_obj Add 5 2]"
  let ?x = "Leaf Symbol (PyStr ''x'')" and ?y = "Leaf Symbol (PyStr ''y'')"
    and ?z = "Leaf Symbol (PyStr ''z'')"
  have r4: "repr ?h 4 (Bin Mul (Bin Add ?x ?y) ?z)"
    by (auto intro!: repr.intros simp: terminal_obj_def operator_obj_def)
  have r6: "repr ?h 6 (Bin Add (Bin Mul ?x ?y) ?z)"
    by (auto intro!: repr.intros simp: terminal_obj_def operator_obj_def)
  have "str_expr (\<lambda>v. '''') 3 ?h 4 = Inr (spec_render (\<lambda>v. '''') (Bin Mul (Bin Add ?x ?y) ?z))"
    by (rule str_parenthesizes_by_precedence[OF r4]) (simp_all add: isinstance_def)
  moreover
  have "str_expr (\<lambda>v. '''') 3 ?h 6 = Inr (spec_render (\<lambda>v. '''') (Bin Add (Bin Mul ?x ?y) ?z))"
    by (rule str_parenthesizes_by_precedence[OF r6]) (simp_all add: isinstance_def)
  ultimately show ?thesis by simp
qed

section \<open>Construction checks the type of the value\<close>

text \<open>
  Claim C5. \<^verbatim>\<open>Number(value)\<close> raises \<open>TypeError\<close> exactly when the value is not numeric
  and constructs an object otherwise; \<^verbatim>\<open>Symbol(name)\<close> raises \<open>TypeError\<close> exactly
  when the name is not a string and constructs an object otherwise. The error is the
  whole result: no object and no new heap come with it. \<^verbatim>\<open>Number("abc")\<close> and
  \<^verbatim>\<open>Symbol(5)\<close> fail in this way.
\<close>
theorem construction_checks_type:
  "(Number_init x w = Inl TypeError) = (\<not> (\<exists>v. x = Lit v \<and> is_number v))
   \<and> ((\<exists>a w'. Number_init x w = Inr (a, w')) = (\<exists>v. x = Lit v \<and> is_number v))
   \<and> (Symbol_init x w = Inl TypeError) = (\<not> (\<exists>v. x = Lit v \<and> is_str v))
   \<and> ((\<exists>a w'. Symbol_init x w = Inr (a, w')) = (\<exists>v. x = Lit v \<and> is_str v))
   \<and> Number_init (Lit (PyStr ''abc'')) w = Inl TypeError
   \<and> Symbol_init (Lit (PyInt 5)) w = Inl TypeError"
  by (cases x) (auto simp: Number_init_def Symbol_init_def Terminal_init_def)

text \<open>
  Claim C10. The check of \<open>Number\<close> accepts every instance of the numeric tower:
  \<^verbatim>\<open>Number(True)\<close> and \<^verbatim>\<open>Number(2+3j)\<close> construct an object, as every \<open>bool\<close>,
  \<open>int\<close>, \<open>float\<close> and \<open>complex\<close> does; a string or \<open>None\<close> is rejected.
\<close>
theorem Number_accepts_numeric_tower:
  "Number_init (Lit (PyBool True)) w =
     Inr (length (heap w), extend_heap w [terminal_obj Number (PyBool True)])
   \<and> Number_init (Lit (PyComplex 2 3)) w =
     Inr (length (heap w), extend_heap w [terminal_obj Number (PyComplex 2 3)])
   \<and> Number_init (Lit (PyBool b)) w =
     Inr (length (heap w), extend_heap w [terminal_obj Number (PyBool b)])
   \<and> Number_init (Lit (PyInt i)) w =
     Inr (length (heap w), extend_heap w [terminal_obj Number (PyInt i)])
   \<and> Number_init (Lit (PyFloat q)) w =
     Inr (length (heap w), extend_heap w [terminal_obj Number (PyFloat q)])
   \<and> Number_init (Lit (PyComplex re im)) w =
     Inr (length (heap w), extend_heap w [terminal_obj Number (PyComplex re im)])
   \<and> Number_init (Lit (PyStr s)) w = Inl TypeError
   \<and> Number_init (Lit PyNone) w = Inl TypeError"
  by (simp add: Number_init_number) (simp add: Number_init_def)

section \<open>Arithmetic with a plain number\<close>

text \<open>
  Claim C6. For an expression \<open>e\<close> and a plain number \<open>c\<close>, each of the five
  operations \<^verbatim>\<open>e OP c\<close> builds the operator node with the operands \<open>e\<close> and
  \<^verbatim>\<open>Number(c)\<close>, and \<^verbatim>\<open>c OP e\<close> builds it with the operands \<^verbatim>\<open>Number(c)\<close> and \<open>e\<close>:
  the number is wrapped in both orders and the order of the operands is kept.
\<close>
theorem arithmetic_wraps_literal_in_order:
  assumes "is_number c"
  shows "Expression_add e (Lit c) w = Inr (Suc (length (heap w)),
           extend_heap w [terminal_obj Number c, operator_obj Add e (length (heap w))])
    \<and> Expression_sub e (Lit c) w = Inr (Suc (length (heap w)),
           extend_heap w [terminal_obj Number c, operator_obj Sub e (length (heap w))])
    \<and> Expression_mul e (Lit c) w = Inr (Suc (length (heap w)),
           extend_heap w [terminal_obj Number c, operator_obj Mul e (length (heap w))])
    \<and> Expression_truediv e (Lit c) w = Inr (Suc (length (heap w)),
           extend_heap w [terminal_obj Number c, operator_obj Div e (length (heap w))])
    \<and> Expression_pow e (Lit c) w = Inr (Suc (length (heap w)),
           extend_heap w [terminal_obj Number c, operator_obj Pow_cls e (length (heap w))])
    \<and> Expression_radd e (Lit c) w = Inr (Suc (length (heap w)),
           extend_heap w [terminal_obj Number c, operator_obj Add (length (heap w)) e])
    \<and> Expression_rsub e (Lit c) w = Inr (Suc (length (heap w)),
           extend_heap w [terminal_obj Number c, operator_obj Sub (length (heap w)) e])
    \<and> Expression_rmul e (Lit c) w = Inr (Suc (length (heap w)),
           extend_heap w [terminal_obj Number c, operator_obj Mul (length (heap w)) e])
    \<and> Expression_rtruediv e (Lit c) w = Inr (Suc (length (heap w)),
           extend_heap w [terminal_obj Number c, operator_obj Div (length (heap w)) e])
    \<and> Expression_rpow e (Lit c) w = Inr (Suc (length (heap w)),
           extend_heap w [terminal_obj Number c, operator_obj Pow_cls (length (heap w)) e])"
  by (simp add: binary_Lit[OF assms] reflected_Lit[OF assms])

theorem arithmetic_wraps_literal_in_order_witness:
  "is_number (PyInt 5)
   \<and> Expression_rsub 0 (Lit (PyInt 5)) \<lparr>heap = [terminal_obj Symbol (PyStr ''x'')], user = ()\<rparr> =
       Inr (2, \<lparr>heap = [terminal_obj Symbol (PyStr ''x''), terminal_obj Number (PyInt 5),
                        operator_obj Sub 1 0], user = ()\<rparr>)
   \<and> Expression_sub 0 (Lit (PyInt 5)) \<lparr>heap = [terminal_obj Symbol (PyStr ''x'')], user = ()\<rparr> =
       Inr (2, \<lparr>heap = [terminal_obj Symbol (PyStr ''x''), terminal_obj Number (PyInt 5),
                        operator_obj Sub 0 1], user = ()\<rparr>)"
  using arithmetic_wraps_literal_in_order[of "PyInt 5" 0
      "\<lparr>heap = [terminal_obj Symbol (PyStr ''x'')], user = ()\<rparr>"]
  by (simp add: extend_heap_def)

section \<open>The rules for products, quotients and powers\<close>

text \<open>
  Claim C7. With the results \<open>o0\<close>, \<open>o1\<close> for the operands \<open>x0\<close>, \<open>x1\<close> of a node,
  the rule for \<open>Mul\<close> builds \<open>o0 * x1 + o1 * x0\<close>, the rule for \<open>Div\<close> builds
  \<open>(o0 * x1 - o1 * x0) / x1 ^ 2\<close> and the rule for \<open>Pow\<close> builds
  \<open>(o0 * x1) * x0 ^ (x1 - 1)\<close>, exactly these objects and in this order of
  construction; the operands \<open>x0\<close>, \<open>x1\<close> themselves are referred to, not copied.
\<close>
theorem product_quotient_power_rules:
  assumes "e < length (heap w)" and "operands (heap w ! e) = [x0, x1]"
  shows "(cls_of (heap w ! e) = Mul \<longrightarrow>
            differentiate e [o0, o1] kw w =
              Inr (length (heap w) + 2,
                   extend_heap w [operator_obj Mul o0 x1, operator_obj Mul o1 x0,
                                  operator_obj Add (length (heap w)) (length (heap w) + 1)]))
       \<and> (cls_of (heap w ! e) = Div \<longrightarrow>
            differentiate e [o0, o1] kw w =
              Inr (length (heap w) + 5,
                   extend_heap w [operator_obj Mul o0 x1, operator_obj Mul o1 x0,
                                  operator_obj Sub (length (heap w)) (length (heap w) + 1),
                                  terminal_obj Number (PyInt 2),
                                  operator_obj Pow_cls x1 (length (heap w) + 3),
                                  operator_obj Div (length (heap w) + 2) (length (heap w) + 4)]))
       \<and> (cls_of (heap w ! e) = Pow_cls \<longrightarrow>
            differentiate e [o0, o1] kw w =
              Inr (length (heap w) + 4,
                   extend_heap w [operator_obj Mul o0 x1, terminal_obj Number (PyInt 1),
                                  operator_obj Sub x1 (length (heap w) + 1),
                                  operator_obj Pow_cls x0 (length (heap w) + 2),
                                  operator_obj Mul (length (heap w)) (length (heap w) + 3)]))"
  using assms
  by (simp add: differentiate_def differentiate_Mul_eq differentiate_Div_eq differentiate_Pow_eq)

theorem product_quotient_power_rules_witness:
  "differentiate 2 [5, 6] [] \<lparr>heap = rules_heap, user = ()\<rparr> =
     Inr (9, \<lparr>heap = rules_heap @ [operator_obj Mul 5 1, operator_obj Mul 6 0, operator_obj Add 7 8],
              user = ()\<rparr>)
   \<and> differentiate 3 [5, 6] [] \<lparr>heap = rules_heap, user = ()\<rparr> =
     Inr (12, \<lparr>heap = rules_heap @ [operator_obj Mul 5 1, operator_obj Mul 6 0, operator_obj Sub 7 8,
                 terminal_obj Number (PyInt 2), operator_obj Pow_cls 1 10, operator_obj Div 9 11],
              user = ()\<rparr>)
   \<and> differentiate 4 [5, 6] [] \<lparr>heap = rules_heap, user = ()\<rparr> =
     Inr (11, \<lparr>heap = rules_heap @ [operator_obj Mul 5 1, terminal_obj Number (PyInt 1),
                 operator_obj Sub 1 8, operator_obj Pow_cls 0 9, operator_obj Mul 7 10],
              user = ()\<rparr>)"
proof -
  let ?w = "\<lparr>heap = rules_heap, user = ()\<rparr>"
  have len: "length rules_heap = 7" by (simp add: rules_heap_def)
  have m: "(2::nat) < length (heap ?w)" "operands (heap ?w ! 2) = [0, 1]" "cls_of (heap ?w ! 2) = Mul"
    by (simp_all add: rules_heap_def operator_obj_def)
  have d: "(3::nat) < length (heap ?w)" "operands (heap ?w ! 3) = [0, 1]" "cls_of (heap ?w ! 3) = Div"
    by (simp_all add: rules_heap_def operator_obj_def)
  have p: "(4::nat) < length (heap ?w)" "operands (heap ?w ! 4) = [0, 1]" "cls_of (heap ?w ! 4) = Pow_cls"
    by (simp_all add: rules_heap_def operator_obj_def)
  show ?thesis
    using product_quotient_power_rules[OF m(1) m(2), of 5 6 "[]"] m(3)
      product_quotient_power_rules[OF d(1) d(2), of 5 6 "[]"] d(3)
      product_quotient_power_rules[OF p(1) p(2), of 5 6 "[]"] p(3)
    by (simp add: len extend_heap_def)
qed

section \<open>Classes without a rule\<close>

text \<open>
  Claim C8. When neither the class of a node nor any class it inherits from has a
  registered rule, \<open>differentiate\<close> raises \<open>NotImplementedError\<close> with a message
  that names the class of the node, and returns nothing else.
\<close>
theorem differentiate_unregistered_class:
  assumes "\<forall>k\<in>set (mro (cls_of (heap w ! e))). \<not> registered k"
  shows "differentiate e os kw w =
           Inl (NotImplementedError (''Cannot differentiate a '' @ cls_name (cls_of (heap w ! e))))"
proof -
  have "dispatch (cls_of (heap w ! e)) = None"
    using assms by (simp add: dispatch_def find_None_iff)
  then show ?thesis by (simp add: differentiate_def differentiate_base_def)
qed

theorem differentiate_unregistered_class_witness:
  "differentiate 0 [] [] \<lparr>heap = [\<lparr>cls_of = Expression, operands = [], val = None\<rparr>], user = ()\<rparr> =
       Inl (NotImplementedError ''Cannot differentiate a Expression'')
   \<and> differentiate 2 [3, 4] []
       \<lparr>heap = [terminal_obj Symbol (PyStr ''x''), terminal_obj Symbol (PyStr ''y''),
                operator_obj (Derived ''Sqrt'' Operator) 0 1], user = ()\<rparr> =
       Inl (NotImplementedError ''Cannot differentiate a Sqrt'')"
proof -
  have a: "\<forall>k\<in>set (mro Expression). \<not> registered k" by (simp add: registered_def)
  have b: "\<forall>k\<in>set (mro (Derived ''Sqrt'' Operator)). \<not> registered k" by (simp add: registered_def)
  show ?thesis
    using a b
      differentiate_unregistered_class[of "\<lparr>heap = [\<lparr>cls_of = Expression, operands = [], val = None\<rparr>], user = ()\<rparr>" 0 "[]" "[]"]
      differentiate_unregistered_class[of "\<lparr>heap = [terminal_obj Symbol (PyStr ''x''), terminal_obj Symbol (PyStr ''y''),
                operator_obj (Derived ''Sqrt'' Operator) 0 1], user = ()\<rparr>" 2 "[3, 4]" "[]"]
    by (simp add: operator_obj_def)
qed

section \<open>A node that is an operand twice\<close>

text \<open>
  Claim C1 says that \<open>postvisitor\<close> calls the function once on a node that is an
  operand in more than one place. On \<^verbatim>\<open>z = y * y\<close> the loop pushes \<open>y\<close> twice before it
  has visited it, and calls the function on \<open>y\<close> (index 2) twice: the log of the calls
  is 1, 0, 2, 2, 3. The value returned, 7, is the number of nodes of the tree.
\<close>
theorem postvisitor_visits_shared_node_twice:
  "postvisitor 3 count_nodes [] \<lparr>heap = shared_heap, user = []\<rparr> =
     Some (Inr (7, \<lparr>heap = shared_heap, user = [1, 0, 2, 2, 3]\<rparr>))
   \<and> count_list [1, 0, 2, 2, 3] (2::nat) = 2"
  by (simp add: postvisitor_def postvisitor_loop.simps shared_heap_def count_nodes_def
      terminal_obj_def operator_obj_def)

section \<open>The rule for a symbol\<close>

text \<open>
  Claim C3, as the code has it. For a \<open>Symbol\<close> node named \<open>s\<close> the rule returns
  \<^verbatim>\<open>Number(1)\<close> exactly when \<open>s\<close> is the value of some keyword argument, whatever its
  name, and \<^verbatim>\<open>Number(0)\<close> otherwise.
\<close>
theorem Symbol_rule_checks_all_context_values:
  assumes "dispatch (cls_of (heap w ! e)) = Some Symbol" and "val (heap w ! e) = Some (PyStr s)"
  shows "differentiate e os kw w =
           Inr (length (heap w),
                extend_heap w [terminal_obj Number
                  (PyInt (if Lit (PyStr s) \<in> snd ` set kw then 1 else 0))])"
  using assms by (simp add: differentiate_def differentiate_Symbol_eq py_in_PyStr)

theorem Symbol_rule_checks_all_context_values_witness:
  "dispatch Symbol = Some Symbol
   \<and> differentiate 0 [] [(''with_respect_to'', Lit (PyStr ''x''))]
       \<lparr>heap = [terminal_obj Symbol (PyStr ''x'')], user = ()\<rparr> =
     Inr (1, \<lparr>heap = [terminal_obj Symbol (PyStr ''x''), terminal_obj Number (PyInt 1)], user = ()\<rparr>)
   \<and> differentiate 0 [] [(''with_respect_to'', Lit (PyStr ''y''))]
       \<lparr>heap = [terminal_obj Symbol (PyStr ''x'')], user = ()\<rparr> =
     Inr (1, \<lparr>heap = [terminal_obj Symbol (PyStr ''x''), terminal_obj Number (PyInt 0)], user = ()\<rparr>)"
  using Symbol_rule_checks_all_context_values[of
      "\<lparr>heap = [terminal_obj Symbol (PyStr ''x'')], user = ()\<rparr>" 0 "''x''" "[]"
      "[(''with_respect_to'', Lit (PyStr ''x''))]"]
    Symbol_rule_checks_all_context_values[of
      "\<lparr>heap = [terminal_obj Symbol (PyStr ''x'')], user = ()\<rparr>" 0 "''x''" "[]"
      "[(''with_respect_to'', Lit (PyStr ''y''))]"]
  by (simp add: extend_heap_def terminal_obj_def)

text \<open>
  The claim as stated fails: with the target \<open>x\<close> and another keyword argument whose
  value is \<open>y\<close>, the symbol \<open>y\<close> differentiates to \<^verbatim>\<open>Number(1)\<close>.
\<close>

theorem Symbol_rule_other_entry_counterexample:
  "differentiate 0 [] [(''with_respect_to'', Lit (PyStr ''x'')), (''scale'', Lit (PyStr ''y''))]
       \<lparr>heap = [terminal_obj Symbol (PyStr ''y'')], user = ()\<rparr> =
     Inr (1, \<lparr>heap = [terminal_obj Symbol (PyStr ''y''), terminal_obj Number (PyInt 1)], user = ()\<rparr>)
   \<and> map_of [(''with_respect_to'', Lit (PyStr ''x'')), (''scale'', Lit (PyStr ''y''))]
       ''with_respect_to'' = Some (Lit (PyStr ''x''))
   \<and> ''y'' \<noteq> ''x''"
  by (simp add: differentiate_def differentiate_Symbol_eq py_in_PyStr extend_heap_def terminal_obj_def)

section \<open>Differentiating a whole expression\<close>

text \<open>
  Claim C2, as the code has it. The traversal is \<open>postvisitor\<close>, and \<open>differentiate\<close> is
  the function it is given: for every expression whose leaves are numbers and symbols
  and whose inner nodes are the five operators,
  \<^verbatim>\<open>postvisitor(expr, differentiate, name=x)\<close> returns an expression that is the
  derivative of the whole tree by the symbol \<open>x\<close>, as the table of rules defines it.
  For \<^verbatim>\<open>Symbol("x") + Symbol("x")\<close> and \<open>x\<close> the result renders as \<open>1 + 1\<close>.
\<close>

theorem postvisitor_differentiate_is_derivative:
  assumes "wf_heap (heap w)" and "repr (heap w) e t" and "supported t"
  shows "\<exists>r w'. postvisitor e differentiate [(name, Lit (PyStr x))] w = Some (Inr (r, w'))
           \<and> repr (heap w') r (spec_derivative x t)"
proof -
  have e: "e < length (heap w)" using assms(2) by (rule repr_valid)
  from differentiate_traversal[OF assms(1) e, of "[(name, Lit (PyStr x))]"] assms(2,3)
  show ?thesis
    unfolding single_target spec_derivative_def by blast
qed

theorem postvisitor_differentiate_is_derivative_witness:
  "\<exists>r w'. postvisitor 2 differentiate [(''with_respect_to'', Lit (PyStr ''x''))]
             \<lparr>heap = [terminal_obj Symbol (PyStr ''x''), terminal_obj Symbol (PyStr ''x''),
                      operator_obj Add 0 1], user = ()\<rparr> = Some (Inr (r, w'))
          \<and> str_expr (\<lambda>v. '''') 2 (heap w') r = Inr ''1 + 1''"
proof -
  let ?h = "[terminal_obj Symbol (PyStr ''x''), terminal_obj Symbol (PyStr ''x''),
             operator_obj Add 0 1]"
  let ?w = "\<lparr>heap = ?h, user = ()\<rparr>"
  let ?t = "Bin Add (Leaf Symbol (PyStr ''x'')) (Leaf Symbol (PyStr ''x''))"
  have wf: "wf_heap (heap ?w)" by (simp add: wf_heap_def terminal_obj_def operator_obj_def)
  have r: "repr (heap ?w) 2 ?t"
    by (auto intro!: repr.intros simp: terminal_obj_def operator_obj_def)
  have s: "supported ?t" by simp
  from postvisitor_differentiate_is_derivative[OF wf r s, of "''with_respect_to''" "''x''"]
  obtain r' w' where run: "postvisitor 2 differentiate [(''with_respect_to'', Lit (PyStr ''x''))] ?w
      = Some (Inr (r', w'))"
    and d: "repr (heap w') r' (spec_derivative ''x'' ?t)" by blast
  have "str_expr (\<lambda>v. '''') 2 (heap w') r' = Inr (spec_render (\<lambda>v. '''') (spec_derivative ''x'' ?t))"
    by (rule str_expr_repr[OF d]) (simp_all add: spec_derivative_def isinstance_def)
  then have "str_expr (\<lambda>v. '''') 2 (heap w') r' = Inr ''1 + 1''"
    by (simp add: spec_derivative_def digit_def)
  with run show ?thesis by blast
qed

text \<open>
  \<open>differentiate\<close> called on the root alone, with the keyword argument and no results for
  the operands, does not traverse: on \<^verbatim>\<open>Symbol("x") + Symbol("x")\<close> it raises
  \<open>IndexError\<close>.
\<close>

theorem differentiate_alone_counterexample:
  "differentiate 2 [] [(''with_respect_to'', Lit (PyStr ''x''))]
     \<lparr>heap = [terminal_obj Symbol (PyStr ''x''), terminal_obj Symbol (PyStr ''x''),
              operator_obj Add 0 1], user = ()\<rparr> = Inl IndexError"
  by (simp add: differentiate_def differentiate_Add_eq operator_obj_def)

section \<open>Differentiation only adds objects\<close>

text \<open>
  Claim C9. On every heap that construction can build, differentiating an expression
  through \<open>postvisitor\<close> returns, with an error or with a result. With a result, every
  object that existed before is unchanged (class, operands and value), so is the rest of
  the state, and every old object renders as before; the result is an object built by
  the call, and the new objects refer to objects that exist, old ones among them: the
  operands of the input are shared, not copied.
\<close>

theorem differentiation_leaves_input_unchanged:
  assumes "wf_heap (heap w)" and "e < length (heap w)"
  shows "\<exists>res. postvisitor e differentiate kw w = Some res \<and>
     (\<forall>r w'. res = Inr (r, w') \<longrightarrow>
         take (length (heap w)) (heap w') = heap w \<and> user w' = user w \<and> wf_heap (heap w')
         \<and> length (heap w) \<le> r \<and> r < length (heap w')
         \<and> (\<forall>a<length (heap w). \<forall>d. str_expr fmt d (heap w') a = str_expr fmt d (heap w) a))"
proof -
  have render: "\<forall>a<length (heap w). \<forall>d. str_expr fmt d (heap w') a = str_expr fmt d (heap w) a"
    if "take (length (heap w)) (heap w') = heap w" for w' :: "'a world"
  proof -
    have "heap w' = heap w @ drop (length (heap w)) (heap w')"
      using append_take_drop_id[of "length (heap w)" "heap w'"] that by simp
    then show ?thesis
      using str_expr_append[OF assms(1), of _ fmt _ "drop (length (heap w)) (heap w')"] by simp
  qed
  from differentiate_traversal[OF assms, of kw]
  show ?thesis
  proof (elim disjE conjE exE)
    fix err assume "postvisitor e differentiate kw w = Some (Inl err)"
    then show ?thesis by simp
  next
    fix r w'
    assume "postvisitor e differentiate kw w = Some (Inr (r, w'))"
      "take (length (heap w)) (heap w') = heap w" "user w' = user w" "wf_heap (heap w')"
      "length (heap w) \<le> r" "r < length (heap w')"
    then show ?thesis using render[of w'] by simp
  qed
qed

theorem differentiation_leaves_input_unchanged_witness:
  "postvisitor 2 differentiate [(''with_respect_to'', Lit (PyStr ''x''))]
     \<lparr>heap = [terminal_obj Symbol (PyStr ''x''), terminal_obj Symbol (PyStr ''x''),
              operator_obj Mul 0 1], user = ()\<rparr> =
   Some (Inr (7, \<lparr>heap = [terminal_obj Symbol (PyStr ''x''), terminal_obj Symbol (PyStr ''x''),
              operator_obj Mul 0 1, terminal_obj Number (PyInt 1), terminal_obj Number (PyInt 1),
              operator_obj Mul 4 1, operator_obj Mul 3 0, operator_obj Add 5 6], user = ()\<rparr>))
   \<and> str_expr (\<lambda>v. '''') 2
        [terminal_obj Symbol (PyStr ''x''), terminal_obj Symbol (PyStr ''x''),
         operator_obj Mul 0 1, terminal_obj Number (PyInt 1), terminal_obj Number (PyInt 1),
         operator_obj Mul 4 1, operator_obj Mul 3 0, operator_obj Add 5 6] 2 =
       str_expr (\<lambda>v. '''') 2
        [terminal_obj Symbol (PyStr ''x''), terminal_obj Symbol (PyStr ''x''),
         operator_obj Mul 0 1] 2"
proof -
  let ?h = "[terminal_obj Symbol (PyStr ''x''), terminal_obj Symbol (PyStr ''x''),
             operator_obj Mul 0 1]"
  let ?w = "\<lparr>heap = ?h, user = ()\<rparr>"
  let ?kw = "[(''with_respect_to'', Lit (PyStr ''x''))]"
  let ?w' = "\<lparr>heap = [terminal_obj Symbol (PyStr ''x''), terminal_obj Symbol (PyStr ''x''),
              operator_obj Mul 0 1, terminal_obj Number (PyInt 1), terminal_obj Number (PyInt 1),
              operator_obj Mul 4 1, operator_obj Mul 3 0, operator_obj Add 5 6], user = ()\<rparr>"
  have wf: "wf_heap (heap ?w)" by (simp add: wf_heap_def terminal_obj_def operator_obj_def)
  have e: "2 < length (heap ?w)" by simp
  have run: "postvisitor 2 differentiate ?kw ?w = Some (Inr (7, ?w'))"
    by (simp add: postvisitor_def postvisitor_loop.simps differentiate_def
        differentiate_Symbol_eq differentiate_Mul_eq py_in_PyStr
        terminal_obj_def operator_obj_def extend_heap_def)
  from differentiation_leaves_input_unchanged[OF wf e, of ?kw "\<lambda>v. ''''"] run
  have "\<forall>a<length (heap ?w). \<forall>d. str_expr (\<lambda>v. '''') d (heap ?w') a = str_expr (\<lambda>v. '''') d (heap ?w) a"
    by simp
  then have "str_expr (\<lambda>v. '''') 2 (heap ?w') 2 = str_expr (\<lambda>v. '''') 2 (heap ?w) 2"
    by simp
  with run show ?thesis by simp
qed

end
